theory Spec2Isabelle
  imports Main "HOL-Library.Char_ord" "HOL-Library.List_Lexorder" "HOL-Library.Product_Lexorder"
    "HOL-Library.Multiset"
begin

section \<open>AiM report automation: floor/room extraction, ranking, ageing\<close>

text \<open>
  The repository holds two scripts with the same job and diverging rules:
  \<^verbatim>\<open>aim_report_automation.py\<close> and \<^verbatim>\<open>aim_formatter.py\<close>. Both are embedded.
  A Python name with a leading underscore (\<^verbatim>\<open>_floor_rank\<close>) is written with the
  prefix \<open>u_\<close> (\<open>u_floor_rank\<close>); these are the functions of
  \<^verbatim>\<open>aim_report_automation.py\<close>. The functions of \<^verbatim>\<open>aim_formatter.py\<close> keep
  their names.

  Text is a \<^typ>\<open>string\<close>; a character stands for the code point of the same number,
  so the texts of the model are the Python strings over the code points 0 to 255
  (Latin-1). The character classes below are those of CPython on these code points. A
  value that is not a Python \<^verbatim>\<open>str\<close> (None, NaN, a number) is \<open>None\<close> of
  \<^typ>\<open>string option\<close>.
\<close>

subsection \<open>Characters and strings\<close>

definition is_space :: "char \<Rightarrow> bool" where
  \<comment> \<open>\<^verbatim>\<open>str.isspace\<close> and the regex class \<^verbatim>\<open>\s\<close>: TAB, LF, VT, FF, CR, FS, GS, RS, US,
      space, NEL (0x85) and the no-break space (0xA0)\<close>
  "is_space c \<longleftrightarrow> c \<in> set [CHR 0x09, CHR 0x0A, CHR 0x0B, CHR 0x0C, CHR 0x0D,
                             CHR 0x1C, CHR 0x1D, CHR 0x1E, CHR 0x1F, CHR '' '',
                             CHR 0x85, CHR 0xA0]"

definition is_digit :: "char \<Rightarrow> bool" where
  \<comment> \<open>the regex class \<^verbatim>\<open>\d\<close>. It is also \<^verbatim>\<open>str.isdigit\<close> on the characters of a token that
      a pattern has captured: \<^verbatim>\<open>str.isdigit\<close> accepts the superscripts 0xB2, 0xB3, 0xB9 too,
      which no captured token holds (lemma \<open>extracted_tokens\<close> below).\<close>
  "is_digit c \<longleftrightarrow> c \<in> set ''0123456789''"

definition is_upper :: "char \<Rightarrow> bool" where
  \<comment> \<open>the regex class \<^verbatim>\<open>[A-Z]\<close>\<close>
  "is_upper c \<longleftrightarrow> c \<in> set ''ABCDEFGHIJKLMNOPQRSTUVWXYZ''"

definition is_lower :: "char \<Rightarrow> bool" where
  "is_lower c \<longleftrightarrow> c \<in> set ''abcdefghijklmnopqrstuvwxyz''"

definition is_alpha :: "char \<Rightarrow> bool" where
  \<comment> \<open>the regex class \<^verbatim>\<open>[A-Za-z]\<close>, also what \<^verbatim>\<open>[A-Z]\<close> matches under IGNORECASE\<close>
  "is_alpha c \<longleftrightarrow> is_upper c \<or> is_lower c"

definition is_alnum :: "char \<Rightarrow> bool" where
  \<comment> \<open>the regex class \<^verbatim>\<open>[A-Za-z0-9]\<close>, with or without IGNORECASE\<close>
  "is_alnum c \<longleftrightarrow> is_alpha c \<or> is_digit c"

definition latin1_upper :: "char list" where
  \<comment> \<open>the capital letters 0xC0 to 0xDE (0xD7 is the multiplication sign)\<close>
  "latin1_upper =
    [CHR 0xC0, CHR 0xC1, CHR 0xC2, CHR 0xC3, CHR 0xC4, CHR 0xC5, CHR 0xC6, CHR 0xC7,
     CHR 0xC8, CHR 0xC9, CHR 0xCA, CHR 0xCB, CHR 0xCC, CHR 0xCD, CHR 0xCE, CHR 0xCF,
     CHR 0xD0, CHR 0xD1, CHR 0xD2, CHR 0xD3, CHR 0xD4, CHR 0xD5, CHR 0xD6, CHR 0xD8,
     CHR 0xD9, CHR 0xDA, CHR 0xDB, CHR 0xDC, CHR 0xDD, CHR 0xDE]"

definition latin1_lower :: "char list" where
  \<comment> \<open>their small letters 0xE0 to 0xFE (0xF7 is the division sign)\<close>
  "latin1_lower =
    [CHR 0xE0, CHR 0xE1, CHR 0xE2, CHR 0xE3, CHR 0xE4, CHR 0xE5, CHR 0xE6, CHR 0xE7,
     CHR 0xE8, CHR 0xE9, CHR 0xEA, CHR 0xEB, CHR 0xEC, CHR 0xED, CHR 0xEE, CHR 0xEF,
     CHR 0xF0, CHR 0xF1, CHR 0xF2, CHR 0xF3, CHR 0xF4, CHR 0xF5, CHR 0xF6, CHR 0xF8,
     CHR 0xF9, CHR 0xFA, CHR 0xFB, CHR 0xFC, CHR 0xFD, CHR 0xFE]"

definition is_word :: "char \<Rightarrow> bool" where
  \<comment> \<open>the regex class \<^verbatim>\<open>\w\<close>, which decides \<^verbatim>\<open>\b\<close>: the characters that
      \<^verbatim>\<open>str.isalnum\<close> accepts and the underscore. Beyond ASCII these are the Latin-1
      letters (with 0xAA, 0xB5, 0xBA, 0xDF, 0xFF), the superscripts 0xB2, 0xB3, 0xB9 and the
      fractions 0xBC, 0xBD, 0xBE.\<close>
  "is_word c \<longleftrightarrow> is_alnum c \<or> c = CHR ''_''
     \<or> c \<in> set latin1_upper \<or> c \<in> set latin1_lower
     \<or> c \<in> set [CHR 0xAA, CHR 0xB2, CHR 0xB3, CHR 0xB5, CHR 0xB9, CHR 0xBA, CHR 0xBC, CHR 0xBD, CHR 0xBE, CHR 0xDF, CHR 0xFF]"

definition capitals :: "char list" where
  "capitals = ''ABCDEFGHIJKLMNOPQRSTUVWXYZ'' @ latin1_upper"

definition smalls :: "char list" where
  \<comment> \<open>the small letter of each capital, in the same order\<close>
  "smalls = ''abcdefghijklmnopqrstuvwxyz'' @ latin1_lower"

definition lower_ch :: "char \<Rightarrow> char" where
  \<comment> \<open>\<^verbatim>\<open>str.lower\<close> on one character; the regex compares letters through it under
      IGNORECASE\<close>
  "lower_ch c = (case map_of (zip capitals smalls) c of Some d \<Rightarrow> d | None \<Rightarrow> c)"

definition upper_ch :: "char \<Rightarrow> char" where
  "upper_ch c = (case map_of (zip smalls capitals) c of Some d \<Rightarrow> d | None \<Rightarrow> c)"

definition lower :: "string \<Rightarrow> string" where
  \<comment> \<open>\<^verbatim>\<open>str.lower()\<close>\<close>
  "lower s = map lower_ch s"

definition upper :: "string \<Rightarrow> string" where
  \<comment> \<open>\<^verbatim>\<open>str.upper()\<close>: the sharp s (0xDF) becomes SS. The capitals of the micro sign
      (0xB5) and of the y with diaeresis (0xFF) are the code points 924 and 376, which no
      character here stands for: the two are left as they are. The scripts compare an
      upper-cased text with ASCII constants and search it for ASCII letters and digits,
      which does not tell the two from their capitals; the Building value and the place
      of a label among the labels of its tier do. No extracted token holds one.\<close>
  "upper s = concat (map (\<lambda>c. if c = CHR 0xDF then ''SS'' else [upper_ch c]) s)"

definition lstrip :: "string \<Rightarrow> string" where
  "lstrip s = dropWhile is_space s"

definition rstrip :: "string \<Rightarrow> string" where
  "rstrip s = rev (dropWhile is_space (rev s))"

definition strip :: "string \<Rightarrow> string" where
  \<comment> \<open>\<^verbatim>\<open>str.strip()\<close>\<close>
  "strip s = rstrip (lstrip s)"

definition str_isdigit :: "string \<Rightarrow> bool" where
  \<comment> \<open>\<^verbatim>\<open>str.isdigit()\<close>: not empty and every character a digit\<close>
  "str_isdigit s \<longleftrightarrow> s \<noteq> [] \<and> list_all is_digit s"

definition digit_val :: "char \<Rightarrow> int" where
  "digit_val c = (case map_of (zip ''0123456789'' [0, 1, 2, 3, 4, 5, 6, 7, 8, 9]) c of
                    Some d \<Rightarrow> d | None \<Rightarrow> 0)"

definition int_of_digits :: "string \<Rightarrow> int" where
  \<comment> \<open>\<^verbatim>\<open>int(s)\<close> on a string of decimal digits. Python integers are unbounded; from
      CPython 3.11 on \<^verbatim>\<open>int\<close> refuses, with a ValueError, a string of more digits than
      the interpreter's limit (4300 unless configured), and the model is of digit strings
      within that limit.\<close>
  "int_of_digits s = foldl (\<lambda>n c. 10 * n + digit_val c) 0 s"

fun contains :: "string \<Rightarrow> string \<Rightarrow> bool" where
  \<comment> \<open>\<^verbatim>\<open>t in s\<close> on strings: \<open>contains t s\<close>\<close>
  "contains t [] = (t = [])"
| "contains t (c # cs) = (take (length t) (c # cs) = t \<or> contains t cs)"

subsection \<open>The regular expressions, matched at one position\<close>

text \<open>
  Every pattern of the two scripts is searched with \<^verbatim>\<open>re.search(..., re.IGNORECASE)\<close>:
  the leftmost position at which the pattern matches wins. Each pattern is embedded as
  a function that matches it at the start of the remaining text and returns group 1;
  \<open>search\<close> then walks the text. A pattern that starts with \<^verbatim>\<open>\b\<close> also takes
  the character before the position.
\<close>

fun strip_prefix_ci :: "string \<Rightarrow> string \<Rightarrow> string option" where
  \<comment> \<open>a literal under IGNORECASE: the keyword is given in lower case; returns the rest of the text\<close>
  "strip_prefix_ci [] s = Some s"
| "strip_prefix_ci (k # ks) [] = None"
| "strip_prefix_ci (k # ks) (c # cs) = (if lower_ch c = k then strip_prefix_ci ks cs else None)"

fun alt_then :: "string list \<Rightarrow> (string \<Rightarrow> 'a option) \<Rightarrow> string \<Rightarrow> 'a option" where
  \<comment> \<open>an alternation \<^verbatim>\<open>(?:k1|k2|...)\<close> followed by the rest of the pattern: the
      alternatives are tried in order, the next one when the rest fails\<close>
  "alt_then [] k s = None"
| "alt_then (kw # kws) k s =
     (case (case strip_prefix_ci kw s of None \<Rightarrow> None | Some r \<Rightarrow> k r) of
        Some g \<Rightarrow> Some g
      | None \<Rightarrow> alt_then kws k s)"

definition token :: "string \<Rightarrow> string option" where
  \<comment> \<open>\<^verbatim>\<open>([A-Za-z0-9]+)\<close>, greedy, at the end of a pattern\<close>
  "token s = (let t = takeWhile is_alnum s in if t = [] then None else Some t)"

definition sep_token :: "string \<Rightarrow> string option" where
  \<comment> \<open>\<^verbatim>\<open>\s*[:\-]?\s*([A-Za-z0-9]+)\<close>. White space, the separators and the token
      characters are disjoint classes, so the greedy choice is the only one that can match.\<close>
  "sep_token s =
     (let r1 = dropWhile is_space s;
          r2 = (case r1 of [] \<Rightarrow> [] | c # t \<Rightarrow> if c = CHR '':'' \<or> c = CHR ''-'' then t else r1)
      in token (dropWhile is_space r2))"

definition ws_token :: "string \<Rightarrow> string option" where
  \<comment> \<open>\<^verbatim>\<open>\s*([A-Za-z0-9]+)\<close>\<close>
  "ws_token s = token (dropWhile is_space s)"

definition wordb :: "char option \<Rightarrow> string \<Rightarrow> bool" where
  \<comment> \<open>\<^verbatim>\<open>\b\<close> between the character before the position (None at the start of the
      text) and the remaining text: exactly one side is a word character\<close>
  "wordb prev s \<longleftrightarrow>
     (case prev of None \<Rightarrow> False | Some c \<Rightarrow> is_word c) \<noteq>
     (case s of [] \<Rightarrow> False | c # _ \<Rightarrow> is_word c)"

fun search :: "(string \<Rightarrow> string option) \<Rightarrow> string \<Rightarrow> string option" where
  \<comment> \<open>\<^verbatim>\<open>re.search\<close> for a pattern without look-behind: first position that matches\<close>
  "search m [] = m []"
| "search m (c # cs) = (case m (c # cs) of Some g \<Rightarrow> Some g | None \<Rightarrow> search m cs)"

fun search_b :: "(char option \<Rightarrow> string \<Rightarrow> string option) \<Rightarrow> char option \<Rightarrow> string \<Rightarrow> string option" where
  \<comment> \<open>\<^verbatim>\<open>re.search\<close> for a pattern that starts with \<^verbatim>\<open>\b\<close>\<close>
  "search_b m prev [] = m prev []"
| "search_b m prev (c # cs) =
     (case m prev (c # cs) of Some g \<Rightarrow> Some g | None \<Rightarrow> search_b m (Some c) cs)"

subsection \<open>aim_report_automation.py: \<^verbatim>\<open>_extract_floor_room\<close>\<close>

definition floor_kw_at :: "string \<Rightarrow> string option" where
  \<comment> \<open>\<^verbatim>\<open>(?:floor|flr|level|lvl)\s*[:\-]?\s*([A-Za-z0-9]+)\<close>\<close>
  "floor_kw_at s = alt_then [''floor'', ''flr'', ''level'', ''lvl''] sep_token s"

definition floor_code_at :: "char option \<Rightarrow> string \<Rightarrow> string option" where
  \<comment> \<open>\<^verbatim>\<open>\b(LL|SF)\b\<close>: group 1 is the matched text in its own case\<close>
  "floor_code_at prev s =
     (if wordb prev s then
        alt_then [''ll'', ''sf'']
          (\<lambda>r. if wordb (Some (s ! 1)) r then Some (take 2 s) else None) s
      else None)"

definition room_kw_at :: "string \<Rightarrow> string option" where
  \<comment> \<open>\<^verbatim>\<open>(?:room|rm)\s*[:\-]?\s*([A-Za-z0-9]+)\<close>\<close>
  "room_kw_at s = alt_then [''room'', ''rm''] sep_token s"

definition bare_try :: "nat \<Rightarrow> string \<Rightarrow> string option" where
  \<comment> \<open>\<^verbatim>\<open>\d{n}[A-Z]?\b\<close> with exactly \<open>n\<close> digits: the optional letter is tried
      first, then the match without it\<close>
  "bare_try n s =
     (if n \<le> length (takeWhile is_digit s) then
        (let rest = drop n s in
         if rest \<noteq> [] \<and> is_alpha (hd rest) \<and> wordb (Some (hd rest)) (tl rest)
           then Some (take (Suc n) s)
         else if wordb (Some (last (take n s))) rest then Some (take n s)
         else None)
      else None)"

definition room_bare_at :: "char option \<Rightarrow> string \<Rightarrow> string option" where
  \<comment> \<open>\<^verbatim>\<open>\b(\d{3,4}[A-Z]?)\b\<close>: four digits are tried before three\<close>
  "room_bare_at prev s =
     (if wordb prev s then
        (case bare_try 4 s of Some g \<Rightarrow> Some g | None \<Rightarrow> bare_try 3 s)
      else None)"

definition u_find_floor :: "string \<Rightarrow> string" where
  \<comment> \<open>the loop over \<^verbatim>\<open>floor_patterns\<close>: first pattern that matches, else the empty string\<close>
  "u_find_floor desc =
     (case search floor_kw_at desc of Some g \<Rightarrow> g
      | None \<Rightarrow> (case search_b floor_code_at None desc of Some g \<Rightarrow> g | None \<Rightarrow> []))"

definition u_find_room :: "string \<Rightarrow> string" where
  \<comment> \<open>the loop over \<^verbatim>\<open>room_patterns\<close>\<close>
  "u_find_room desc =
     (case search room_kw_at desc of Some g \<Rightarrow> g
      | None \<Rightarrow> (case search_b room_bare_at None desc of Some g \<Rightarrow> g | None \<Rightarrow> []))"

definition u_fallback_floor :: "string \<Rightarrow> string \<Rightarrow> string" where
  \<comment> \<open>"Fallback: derive floor from room leading digit(s)"\<close>
  "u_fallback_floor floor_val room_val =
     (if floor_val = [] \<and> room_val \<noteq> [] then
        (if 2 \<le> length room_val \<and> str_isdigit (take 2 room_val) then
           (if take 2 room_val \<in> set [''10'', ''11'', ''12''] then take 2 room_val
            else [hd room_val])
         else if room_val \<noteq> [] \<and> is_digit (hd room_val) then [hd room_val]
         else floor_val)
      else floor_val)"

definition u_normalize_floor :: "string \<Rightarrow> string" where
  "u_normalize_floor floor_val =
     (if upper floor_val \<in> set [''0'', ''B''] then ''B''
      else if upper floor_val = ''LL'' then ''LL''
      else if upper floor_val = ''SF'' then ''SF''
      else floor_val)"

definition u_extract_floor_room :: "string option \<Rightarrow> string \<times> string" where
  "u_extract_floor_room description =
     (case description of
        None \<Rightarrow> ([], [])
      | Some d \<Rightarrow>
          if strip d = [] then ([], [])
          else (let desc = strip d;
                    floor_val = u_find_floor desc;
                    room_val = u_find_room desc
                in (u_normalize_floor (u_fallback_floor floor_val room_val), room_val)))"

subsection \<open>aim_formatter.py: \<^verbatim>\<open>extract_floor_room\<close>\<close>

definition floor_colon_at :: "string \<Rightarrow> string option" where
  \<comment> \<open>\<^verbatim>\<open>(?:Floor:|Flr:)\s*([A-Za-z0-9]+)\<close>\<close>
  "floor_colon_at s = alt_then [''floor:'', ''flr:''] ws_token s"

definition room_colon_at :: "string \<Rightarrow> string option" where
  \<comment> \<open>\<^verbatim>\<open>(?:Room:|Rm:)\s*([A-Za-z0-9]+)\<close>\<close>
  "room_colon_at s = alt_then [''room:'', ''rm:''] ws_token s"

definition floor_of_digit :: "char \<Rightarrow> string" where
  \<comment> \<open>\<^verbatim>\<open>mapping.get(room_val[0], "")\<close>\<close>
  "floor_of_digit c =
     (if c = CHR ''0'' then ''B'' else if c \<in> set ''123456789'' then [c] else [])"

definition fallback_floor :: "string \<Rightarrow> string \<Rightarrow> string" where
  \<comment> \<open>"fallback from room number"\<close>
  "fallback_floor floor_val room_val =
     (if floor_val = [] \<and> room_val \<noteq> [] then
        (if 4 \<le> length room_val \<and> str_isdigit (take 2 room_val)
             \<and> take 2 room_val \<in> set [''10'', ''11'', ''12'']
           then take 2 room_val
         else floor_of_digit (hd room_val))
      else floor_val)"

definition normalize_floor :: "string \<Rightarrow> string" where
  "normalize_floor floor_val =
     (if upper floor_val = ''SF'' then ''SF''
      else if floor_val \<in> set [''0'', ''B''] then ''B''
      else floor_val)"

definition extract_floor_room :: "string option \<Rightarrow> string \<times> string" where
  "extract_floor_room description =
     (case description of
        None \<Rightarrow> ([], [])
      | Some d \<Rightarrow>
          if d = [] then ([], [])
          else (let desc = strip d;
                    floor_val = (case search floor_colon_at desc of Some g \<Rightarrow> strip g | None \<Rightarrow> []);
                    room_val = (case search room_colon_at desc of Some g \<Rightarrow> strip g | None \<Rightarrow> [])
                in (normalize_floor (fallback_floor floor_val room_val), room_val)))"

subsection \<open>aim_report_automation.py: ranks\<close>

text \<open>
  \<^verbatim>\<open>_floor_rank\<close> returns the tuples \<^verbatim>\<open>(0, "")\<close>, \<^verbatim>\<open>(1, val)\<close>, \<^verbatim>\<open>(2, int(val))\<close>,
  \<^verbatim>\<open>(3, val)\<close> and \<^verbatim>\<open>_room_rank\<close> the tuples \<^verbatim>\<open>(0, "", "")\<close>,
  \<^verbatim>\<open>(1, number, suffix)\<close>, \<^verbatim>\<open>(2, val, "")\<close>. Python compares tuples from the left, and
  two tuples of one tier carry the same types, so no comparison raises. A tuple is
  embedded as the triple (tier, number, text), the component it lacks being \<open>0\<close> or
  the empty string; the lexicographic order of the triples is the order of the tuples.
  Strings are compared by code point, as Python does.
\<close>

type_synonym rank = "nat \<times> int \<times> string"

definition u_floor_rank :: "string \<Rightarrow> rank" where
  "u_floor_rank v =
     (if strip v = [] then (0, 0, [])
      else (let val = strip (upper v) in
            if val \<in> set [''B'', ''LL'', ''SF''] then (1, 0, val)
            else if str_isdigit val then (2, int_of_digits val, [])
            else (3, 0, val)))"

definition u_room_rank :: "string \<Rightarrow> rank" where
  \<comment> \<open>\<^verbatim>\<open>re.match(r"(\d+)([A-Z]*)", val)\<close> on the upper-cased, stripped value\<close>
  "u_room_rank v =
     (if strip v = [] then (0, 0, [])
      else (let val = strip (upper v); number = takeWhile is_digit val in
            if number \<noteq> [] then (1, int_of_digits number, takeWhile is_upper (dropWhile is_digit val))
            else (2, 0, val)))"

definition BUILDING_ORDER :: "string list" where
  "BUILDING_ORDER = [''ETB'', ''WEB'', ''HEB'', []]"

fun index_of :: "'a list \<Rightarrow> 'a \<Rightarrow> nat" where
  \<comment> \<open>\<^verbatim>\<open>list.index\<close>, used only on a member of the list\<close>
  "index_of [] x = 0"
| "index_of (y # ys) x = (if y = x then 0 else Suc (index_of ys x))"

definition u_building_rank :: "string \<Rightarrow> nat" where
  "u_building_rank v =
     (let val = (if v \<noteq> [] then strip (upper v) else []) in
      if val \<in> set BUILDING_ORDER then index_of BUILDING_ORDER val
      else if val = [] then length BUILDING_ORDER
      else length BUILDING_ORDER + 1)"

subsection \<open>aim_formatter.py: ranks\<close>

definition floor_rank :: "string \<Rightarrow> int" where
  "floor_rank floor_val =
     (if floor_val = [] \<or> strip floor_val = [] then 999
      else (let v = strip (upper floor_val) in
            if v = ''B'' then 0
            else if v = ''SF'' then 99
            else if str_isdigit v then int_of_digits v else 999))"

definition room_rank :: "string \<Rightarrow> int" where
  \<comment> \<open>\<^verbatim>\<open>re.match(r"(\d+)", val)\<close> comes after the test for HALL, STR, ELEV\<close>
  "room_rank room_val =
     (if room_val = [] \<or> strip room_val = [] then 999999
      else (let val = strip (upper room_val) in
            if contains ''HALL'' val \<or> contains ''STR'' val \<or> contains ''ELEV'' val then 700000
            else if takeWhile is_digit val \<noteq> [] then int_of_digits (takeWhile is_digit val)
            else 600000))"

subsection \<open>Business days\<close>

text \<open>
  A calendar date is its day number, counted from 1970-01-01 (a Thursday), which is
  what \<^verbatim>\<open>numpy\<close> makes of a \<^verbatim>\<open>datetime.date\<close>. A time stamp that is missing
  (\<^verbatim>\<open>NaT\<close>) is \<open>None\<close>.
\<close>

definition weekday :: "int \<Rightarrow> int" where
  \<comment> \<open>0 is Monday, 6 is Sunday\<close>
  "weekday d = (d + 3) mod 7"

definition is_busday :: "int \<Rightarrow> bool" where
  \<comment> \<open>the default week mask: Monday to Friday; no holidays\<close>
  "is_busday d \<longleftrightarrow> weekday d < 5"

definition busday_count :: "int \<Rightarrow> int \<Rightarrow> int" where
  \<comment> \<open>Modelled from the spec: \<^verbatim>\<open>numpy.busday_count\<close> is library code, not part of the
      repository. It counts the valid days from the begin date up to, not including,
      the end date, Saturdays and Sundays excluded, no holiday calendar. When the end
      date is earlier the count is negative: the days after the end date up to and
      including the begin date, negated.\<close>
  "busday_count b e =
     (if b \<le> e then int (length (filter is_busday [b..e - 1]))
      else - int (length (filter is_busday [e + 1..b])))"

definition u_business_days :: "int option \<Rightarrow> int \<Rightarrow> int option" where
  \<comment> \<open>\<^verbatim>\<open>_business_days(start, end)\<close>; \<^verbatim>\<open>busday_count\<close> does not raise on two dates,
      so the \<^verbatim>\<open>except\<close> branch has no input here\<close>
  "u_business_days start end_date =
     (case start of None \<Rightarrow> None | Some s \<Rightarrow> Some (busday_count s end_date))"

definition calculate_business_days :: "int option \<Rightarrow> int \<Rightarrow> int option" where
  \<comment> \<open>\<^verbatim>\<open>np.busday_count(...) or 0\<close>\<close>
  "calculate_business_days start_date end_date =
     (case start_date of
        None \<Rightarrow> None
      | Some s \<Rightarrow> (let n = busday_count s end_date in Some (if n \<noteq> 0 then n else 0)))"

subsection \<open>Data frames\<close>

text \<open>
  A row maps a column name to the text of its cell; an empty cell (NaN) and a column
  the frame does not have are \<open>None\<close>. A frame is the list of its column names, as
  they are after the header clean-up, and its rows in input order. The clean-up keeps
  the printable ASCII characters only, and the names of a frame that pandas has read are
  taken to be distinct (it numbers repeated names apart). Renaming can give two columns
  one name; \<^verbatim>\<open>run_aim_formatter\<close> below says what then happens.

  Two library calls are parameters of the pipelines: the date parser behind
  \<^verbatim>\<open>pd.to_datetime\<close> and the clock, \<open>today\<close>. A parser gives the day number of the
  time stamp it reads from a text, and \<open>None\<close> for a text it does not read as a date.
  \<^verbatim>\<open>prepare_dataframe\<close> hands pandas a whole column, and pandas may settle on one
  format for the column and read every cell by it: its parser takes the cells of the
  column and the text. \<^verbatim>\<open>run_aim_formatter\<close> hands it one cell at a time: its parser
  takes the text only.
\<close>

type_synonym row = "string \<rightharpoonup> string"

record frame =
  cols :: "string list"
  rows :: "row list"

datatype error =
    MissingDescription  \<comment> \<open>ValueError: Missing required Description column in CSV input.\<close>
  | MissingColumns      \<comment> \<open>ValueError: Missing required columns. Found: ...\<close>
  | Unpack              \<comment> \<open>ValueError: not enough values to unpack (expected 2, got 0)\<close>
  | DateParse           \<comment> \<open>the error of \<^verbatim>\<open>pd.to_datetime\<close> on a text that is no date\<close>
  | KeyError            \<comment> \<open>KeyError: 'Description'\<close>
  | AmbiguousColumn     \<comment> \<open>the ValueError that follows when a name selects two columns\<close>

definition sort_values :: "('a \<Rightarrow> 'k::linorder) \<Rightarrow> 'a list \<Rightarrow> 'a list" where
  \<comment> \<open>Modelled from the spec: \<^verbatim>\<open>DataFrame.sort_values(by=[...])\<close> is library code
      (pandas), not part of the repository. On several key columns it is "a stable sort,
      ties broken by original input order, using composite keys, ascending".\<close>
  "sort_values key rs = sort_key key rs"

fun collect :: "(error + 'a) list \<Rightarrow> error + 'a list" where
  \<comment> \<open>\<^verbatim>\<open>Series.apply\<close> of a function that may raise: the first error ends the pass\<close>
  "collect [] = Inr []"
| "collect (x # xs) =
     (case x of
        Inl e \<Rightarrow> Inl e
      | Inr v \<Rightarrow> (case collect xs of Inl e \<Rightarrow> Inl e | Inr vs \<Rightarrow> Inr (v # vs)))"

fun digit_runs_within :: "nat \<Rightarrow> string \<Rightarrow> bool" where
  \<comment> \<open>no run of consecutive digits in the text is longer than \<open>n\<close>\<close>
  "digit_runs_within n [] = True"
| "digit_runs_within n (c # cs) = (length (takeWhile is_digit (c # cs)) \<le> n \<and> digit_runs_within n cs)"

definition within_int_limit :: "frame \<Rightarrow> bool" where
  \<comment> \<open>No cell of the frame holds a run of more than 4300 digits. That is the longest digit
      string \<^verbatim>\<open>int\<close> converts under the default settings of CPython 3.11 and later
      (earlier versions have no limit). The rank functions convert digit runs of the floor
      and the room, which the extraction has cut from a description; on a frame within the
      limit none of these conversions raises.\<close>
  "within_int_limit fr \<longleftrightarrow>
     list_all (\<lambda>r. list_all (\<lambda>c. case r c of None \<Rightarrow> True | Some s \<Rightarrow> digit_runs_within 4300 s)
                              (cols fr)) (rows fr)"

subsection \<open>aim_report_automation.py: \<^verbatim>\<open>prepare_dataframe\<close>\<close>

fun u_find_column :: "string list \<Rightarrow> string list \<Rightarrow> string option" where
  \<comment> \<open>first search term, in their order, that some column name contains; the first such
      column. (The look-up in \<^verbatim>\<open>lower_cols\<close> after the inner loop can only succeed
      when the loop has already returned.)\<close>
  "u_find_column cs [] = None"
| "u_find_column cs (t # ts) =
     (case find (\<lambda>c. contains (lower t) (lower c)) cs of
        Some c \<Rightarrow> Some c
      | None \<Rightarrow> u_find_column cs ts)"

definition u_normalize_building :: "frame \<Rightarrow> row \<Rightarrow> string" where
  \<comment> \<open>\<^verbatim>\<open>_normalize_building\<close>, the value it gives one row\<close>
  "u_normalize_building fr r =
     (case u_find_column (cols fr) [''building'', ''property'', ''facility''] of
        None \<Rightarrow> []
      | Some building_col \<Rightarrow>
          (let v = strip (upper (case r building_col of None \<Rightarrow> [] | Some s \<Rightarrow> s)) in
           if v = ''E.T.B'' then ''ETB''
           else if v = ''W.E.B'' then ''WEB''
           else if v = ''H.E.B'' then ''HEB''
           else v))"

definition to_datetime_coerce ::
  "(string option list \<Rightarrow> string \<Rightarrow> int option) \<Rightarrow> string option list \<Rightarrow> int option list" where
  \<comment> \<open>\<^verbatim>\<open>pd.to_datetime(column, errors="coerce")\<close>: NaT for an empty cell and for a text
      that the parser, given this column, does not read as a date\<close>
  "to_datetime_coerce parse column =
     map (\<lambda>cell. case cell of None \<Rightarrow> None | Some s \<Rightarrow> parse column s) column"

definition u_date_column :: "string list \<Rightarrow> string option" where
  \<comment> \<open>the column behind \<^verbatim>\<open>date_for_age\<close>: Date Created if there is one, else Edit Date\<close>
  "u_date_column cs =
     (case u_find_column cs [''date created'', ''created''] of
        Some c \<Rightarrow> Some c
      | None \<Rightarrow> u_find_column cs [''edit date'', ''last updated'', ''modified''])"

record wo_row =
  building :: string
  floor :: string
  room :: string
  age :: "int option"
  status :: string
  source :: row

definition u_ages ::
  "(string option list \<Rightarrow> string \<Rightarrow> int option) \<Rightarrow> int \<Rightarrow> frame \<Rightarrow> int option list" where
  \<comment> \<open>the column Age (Work Days): \<^verbatim>\<open>date_for_age.apply(lambda d: _business_days(d, today))\<close>,
      or None in every row when there is no date column\<close>
  "u_ages parse today fr =
     (case u_date_column (cols fr) of
        None \<Rightarrow> map (\<lambda>r. None) (rows fr)
      | Some c \<Rightarrow>
          map (\<lambda>d. u_business_days d today)
              (to_datetime_coerce parse (map (\<lambda>r. r c) (rows fr))))"

definition u_enrich :: "frame \<Rightarrow> string \<Rightarrow> row \<times> int option \<Rightarrow> wo_row" where
  \<comment> \<open>the derived fields of one row, given its age: Building, Floor, Room,
      Age (Work Days), Inspection Status\<close>
  "u_enrich fr desc_col ra =
     \<lparr> building = u_normalize_building fr (fst ra),
       floor = fst (u_extract_floor_room (fst ra desc_col)),
       room = snd (u_extract_floor_room (fst ra desc_col)),
       age = snd ra,
       status = ''Pending'',
       source = fst ra \<rparr>"

definition u_sort_key :: "wo_row \<Rightarrow> nat \<times> rank \<times> rank" where
  \<comment> \<open>\<^verbatim>\<open>by=["__building_rank", "__floor_rank", "__room_rank"]\<close>\<close>
  "u_sort_key r = (u_building_rank (building r), u_floor_rank (floor r), u_room_rank (room r))"

definition prepare_dataframe ::
  "(string option list \<Rightarrow> string \<Rightarrow> int option) \<Rightarrow> int \<Rightarrow> frame \<Rightarrow> error + wo_row list" where
  \<comment> \<open>The five derived columns have just been assigned when the second \<^verbatim>\<open>raise\<close> is
      reached, so it has no input. Unpacking the zipped (floor, room) pairs into Floor and Room raises
      when the frame has no row. The order of the columns and the text form of the dates
      are left to the renderer.\<close>
  "prepare_dataframe parse today fr =
     (case u_find_column (cols fr) [''description'', ''desc''] of
        None \<Rightarrow> Inl MissingDescription
      | Some desc_col \<Rightarrow>
          if rows fr = [] then Inl Unpack
          else Inr (sort_values u_sort_key
                 (map (u_enrich fr desc_col) (zip (rows fr) (u_ages parse today fr)))))"

subsection \<open>aim_formatter.py: \<^verbatim>\<open>run_aim_formatter\<close>\<close>

definition find_col :: "string list \<Rightarrow> string \<Rightarrow> string option" where
  "find_col cs part = find (\<lambda>c. contains (lower part) (lower c)) cs"

definition to_datetime :: "(string \<Rightarrow> int option) \<Rightarrow> string option \<Rightarrow> error + int option" where
  \<comment> \<open>\<^verbatim>\<open>pd.to_datetime(d)\<close>: NaT for an empty cell, an error for a text that is no date\<close>
  "to_datetime parse cell =
     (case cell of
        None \<Rightarrow> Inr None
      | Some s \<Rightarrow> (case parse s of None \<Rightarrow> Inl DateParse | Some d \<Rightarrow> Inr (Some d)))"

definition rename :: "(string \<rightharpoonup> string) \<Rightarrow> frame \<Rightarrow> frame" where
  \<comment> \<open>\<^verbatim>\<open>df.rename(columns=...)\<close>. When two columns get one name the new list of names
      holds it twice, and a row keeps under that name the cell of the first of them.\<close>
  "rename ren fr =
     (let new = (\<lambda>c. case ren c of None \<Rightarrow> c | Some n \<Rightarrow> n) in
      \<lparr> cols = map new (cols fr),
        rows = map (\<lambda>r n. case find (\<lambda>c. new c = n) (cols fr) of None \<Rightarrow> None | Some c \<Rightarrow> r c)
                   (rows fr) \<rparr>)"

record fmt_row =
  f_age :: "int option"
  f_floor :: string
  f_room :: string
  f_status :: string
  f_source :: row

definition fmt_sort_key :: "fmt_row \<Rightarrow> int \<times> int" where
  \<comment> \<open>\<^verbatim>\<open>by=["__FloorRank", "__RoomRank"]\<close>\<close>
  "fmt_sort_key r = (floor_rank (f_floor r), room_rank (f_room r))"

definition run_aim_formatter :: "(string \<Rightarrow> int option) \<Rightarrow> int \<Rightarrow> frame \<Rightarrow> error + fmt_row list" where
  \<comment> \<open>Up to the sort; what follows in the source writes the workbook. When the renamed
      frame has two columns named Date Created (a column such as Edit Date was found first
      and renamed, next to a Date Created of the input), \<^verbatim>\<open>df["Date Created"]\<close> is a
      frame, not a column: \<^verbatim>\<open>apply\<close> hands whole columns to the function, and the test
      \<^verbatim>\<open>if pd.isna(start_date)\<close> on a column raises a ValueError. The same happens with
      two columns named Description, at \<^verbatim>\<open>if not description\<close>.\<close>
  "run_aim_formatter parse today fr0 =
     (case (find_col (cols fr0) ''work'', find_col (cols fr0) ''desc'', find_col (cols fr0) ''date'') of
        (Some work_col, Some desc_col, Some date_col) \<Rightarrow>
          (let fr = rename (Map.empty(work_col \<mapsto> ''Work Order'', desc_col \<mapsto> ''Description'',
                                    date_col \<mapsto> ''Date Created'')) fr0 in
           if 1 < count_list (cols fr) ''Date Created'' then Inl AmbiguousColumn
           else
           case collect (map (\<lambda>r. case to_datetime parse (r ''Date Created'') of
                                     Inl e \<Rightarrow> Inl e
                                   | Inr d \<Rightarrow> Inr (calculate_business_days d today)) (rows fr)) of
             Inl e \<Rightarrow> Inl e
           | Inr ages \<Rightarrow>
               if ''Description'' \<notin> set (cols fr) then Inl KeyError
               else if 1 < count_list (cols fr) ''Description'' then Inl AmbiguousColumn
               else if rows fr = [] then Inl Unpack
               else Inr (sort_values fmt_sort_key
                      (map (\<lambda>(r, a). \<lparr> f_age = a,
                                       f_floor = fst (extract_floor_room (r ''Description'')),
                                       f_room = snd (extract_floor_room (r ''Description'')),
                                       f_status = ''Pending'',
                                       f_source = r \<rparr>)
                           (zip (rows fr) ages))))
      | _ \<Rightarrow> Inl MissingColumns)"

subsection \<open>Example frames\<close>

text \<open>
  A date parser that knows two dates (Monday 2024-01-01 is day 19723) and a frame of
  three work orders, the second without a date. The variants add a row whose date is
  no date, have no date column, have no description column, or have an Edit Date
  column before the Date Created column.
\<close>

definition example_parse :: "string \<Rightarrow> int option" where
  "example_parse s = (if s = ''2024-01-01'' then Some 19723
                      else if s = ''2024-01-03'' then Some 19725 else None)"

definition example_frame :: frame where
  "example_frame =
     \<lparr> cols = [''Work Order'', ''Description'', ''Date Created''],
       rows = [[''Work Order'' \<mapsto> ''1'', ''Description'' \<mapsto> ''Room: 204'', ''Date Created'' \<mapsto> ''2024-01-01''],
               [''Work Order'' \<mapsto> ''2'', ''Description'' \<mapsto> ''Rm: 204''],
               [''Work Order'' \<mapsto> ''3'', ''Description'' \<mapsto> ''Floor: 1 Room: 150'', ''Date Created'' \<mapsto> ''2024-01-03'']] \<rparr>"

definition example_frame_bad_date :: frame where
  "example_frame_bad_date =
     example_frame \<lparr> rows := rows example_frame @
        [[''Work Order'' \<mapsto> ''4'', ''Description'' \<mapsto> ''Room: 310'', ''Date Created'' \<mapsto> ''TBD'']] \<rparr>"



definition example_frame_two_dates :: frame where
  "example_frame_two_dates =
     \<lparr> cols = [''Work Order'', ''Description'', ''Edit Date'', ''Date Created''],
       rows = [[''Work Order'' \<mapsto> ''1'', ''Description'' \<mapsto> ''Room: 204'',
                ''Edit Date'' \<mapsto> ''2024-01-03'', ''Date Created'' \<mapsto> ''2024-01-01'']] \<rparr>"

section \<open>Properties\<close>

subsection \<open>Character classes and the matchers\<close>

lemma space_not_alnum: "is_space c \<Longrightarrow> \<not> is_alnum c"
  by (auto simp: is_space_def is_alnum_def is_alpha_def is_upper_def is_lower_def is_digit_def)

lemma colon_not_space [simp]: "\<not> is_space (CHR '':'')"
  by (simp add: is_space_def)

lemma lower_ch_colon:
  assumes "lower_ch c = CHR '':''"
  shows "c = CHR '':''"
proof (cases "map_of (zip capitals smalls) c")
  case None
  with assms show ?thesis by (simp add: lower_ch_def)
next
  case (Some d)
  with assms have "d = CHR '':''" by (simp add: lower_ch_def)
  with Some have "CHR '':'' \<in> set smalls" by (auto dest!: map_of_SomeD set_zip_rightD)
  moreover have "CHR '':'' \<notin> set smalls" by code_simp
  ultimately show ?thesis by simp
qed

lemma search_skip:
  "(\<forall>i<length pre. m (drop i (pre @ s)) = None) \<Longrightarrow> search m (pre @ s) = search m s"
proof (induction pre)
  case Nil
  then show ?case by simp
next
  case (Cons c pre)
  have here: "m ((c # pre) @ s) = None" using Cons.prems by (auto dest: spec[of _ 0])
  have "\<forall>i<length pre. m (drop i (pre @ s)) = None"
  proof (intro allI impI)
    fix i assume "i < length pre"
    then have "m (drop (Suc i) ((c # pre) @ s)) = None" using Cons.prems by (auto simp del: drop_Suc_Cons)
    then show "m (drop i (pre @ s)) = None" by simp
  qed
  then have "search m (pre @ s) = search m s" by (rule Cons.IH)
  with here show ?case by simp
qed

lemma search_hit: "m s = Some g \<Longrightarrow> search m s = Some g"
  by (cases s) simp_all

lemma strip_prefix_ci_append: "map lower_ch a = kw \<Longrightarrow> strip_prefix_ci kw (a @ t) = Some t"
  by (induction kw "a @ t" arbitrary: a t rule: strip_prefix_ci.induct) auto

lemma token_run:
  assumes "X \<noteq> []" "\<forall>c\<in>set X. is_alnum c" "rest = [] \<or> \<not> is_alnum (hd rest)"
  shows "token (X @ rest) = Some X"
proof -
  have "takeWhile is_alnum rest = []" using assms(3) by (cases rest) auto
  then have "takeWhile is_alnum (X @ rest) = X" using assms(2) by simp
  then show ?thesis using assms(1) by (simp add: token_def)
qed

lemma skip_ws_token:
  assumes "X \<noteq> []" "\<forall>c\<in>set X. is_alnum c"
  shows "dropWhile is_space (X @ rest) = X @ rest"
proof -
  have "\<not> is_space (hd X)" using assms space_not_alnum by (cases X) auto
  then show ?thesis using assms(1) by (cases X) auto
qed

lemma skip_ws_run:
  assumes "\<forall>c\<in>set ws. is_space c" "X \<noteq> []" "\<forall>c\<in>set X. is_alnum c"
  shows "dropWhile is_space (ws @ X @ rest) = X @ rest"
  using assms(1) skip_ws_token[OF assms(2,3)] by simp

lemma sep_token_colon:
  assumes "\<forall>c\<in>set ws. is_space c" "X \<noteq> []" "\<forall>c\<in>set X. is_alnum c" "rest = [] \<or> \<not> is_alnum (hd rest)"
  shows "sep_token (CHR '':'' # ws @ X @ rest) = Some X"
proof -
  have "sep_token (CHR '':'' # ws @ X @ rest) = token (dropWhile is_space (ws @ X @ rest))"
    by (simp add: sep_token_def)
  also have "\<dots> = token (X @ rest)" by (simp only: skip_ws_run[OF assms(1-3)])
  also have "\<dots> = Some X" by (rule token_run[OF assms(2-4)])
  finally show ?thesis .
qed

lemma ws_token_run:
  assumes "\<forall>c\<in>set ws. is_space c" "X \<noteq> []" "\<forall>c\<in>set X. is_alnum c" "rest = [] \<or> \<not> is_alnum (hd rest)"
  shows "ws_token (ws @ X @ rest) = Some X"
  unfolding ws_token_def by (simp only: skip_ws_run[OF assms(1-3)] token_run[OF assms(2-4)])

lemma marker_cases:
  assumes "lower mk = ''room:'' \<or> lower mk = ''rm:''"
  obtains a where "mk = a @ [CHR '':'']" "map lower_ch a = ''room''"
        | a where "mk = a @ [CHR '':'']" "map lower_ch a = ''rm''"
proof -
  from assms show thesis
  proof
    assume "lower mk = ''room:''"
    then obtain c1 c2 c3 c4 c5 where mk: "mk = [c1, c2, c3, c4, c5]"
      and l: "lower_ch c1 = CHR ''r''" "lower_ch c2 = CHR ''o''" "lower_ch c3 = CHR ''o''"
             "lower_ch c4 = CHR ''m''" "lower_ch c5 = CHR '':''"
      by (auto simp: lower_def map_eq_Cons_conv)
    from l(5) have "c5 = CHR '':''" by (rule lower_ch_colon)
    with mk l have "mk = [c1, c2, c3, c4] @ [CHR '':'']" "map lower_ch [c1, c2, c3, c4] = ''room''" by simp_all
    then show thesis by (rule that(1))
  next
    assume "lower mk = ''rm:''"
    then obtain c1 c2 c3 where mk: "mk = [c1, c2, c3]"
      and l: "lower_ch c1 = CHR ''r''" "lower_ch c2 = CHR ''m''" "lower_ch c3 = CHR '':''"
      by (auto simp: lower_def map_eq_Cons_conv)
    from l(3) have "c3 = CHR '':''" by (rule lower_ch_colon)
    with mk l have "mk = [c1, c2] @ [CHR '':'']" "map lower_ch [c1, c2] = ''rm''" by simp_all
    then show thesis by (rule that(2))
  qed
qed

lemma room_kw_at_marker:
  assumes "lower mk = ''room:'' \<or> lower mk = ''rm:''"
    "\<forall>c\<in>set ws. is_space c" "X \<noteq> []" "\<forall>c\<in>set X. is_alnum c" "rest = [] \<or> \<not> is_alnum (hd rest)"
  shows "room_kw_at (mk @ ws @ X @ rest) = Some X"
  using assms(1)
proof (cases rule: marker_cases)
  case (1 a)
  have "strip_prefix_ci ''room'' (a @ CHR '':'' # ws @ X @ rest) = Some (CHR '':'' # ws @ X @ rest)"
    using 1(2) by (rule strip_prefix_ci_append)
  then show ?thesis using 1(1) sep_token_colon[OF assms(2-5)]
    by (simp add: room_kw_at_def)
next
  case (2 a)
  then obtain c1 c2 where a: "a = [c1, c2]" "lower_ch c1 = CHR ''r''" "lower_ch c2 = CHR ''m''"
    by (auto simp: map_eq_Cons_conv)
  have "strip_prefix_ci ''rm'' (a @ CHR '':'' # ws @ X @ rest) = Some (CHR '':'' # ws @ X @ rest)"
    using 2(2) by (rule strip_prefix_ci_append)
  moreover have "strip_prefix_ci ''room'' (a @ CHR '':'' # ws @ X @ rest) = None"
    using a by simp
  ultimately show ?thesis using 2(1) sep_token_colon[OF assms(2-5)]
    by (simp add: room_kw_at_def)
qed

lemma room_colon_at_marker:
  assumes "lower mk = ''room:'' \<or> lower mk = ''rm:''"
    "\<forall>c\<in>set ws. is_space c" "X \<noteq> []" "\<forall>c\<in>set X. is_alnum c" "rest = [] \<or> \<not> is_alnum (hd rest)"
  shows "room_colon_at (mk @ ws @ X @ rest) = Some X"
proof -
  from assms(1) consider "map lower_ch mk = ''room:''" | "map lower_ch mk = ''rm:''"
    by (auto simp: lower_def)
  then show ?thesis
  proof cases
    case 1
    then have "strip_prefix_ci ''room:'' (mk @ ws @ X @ rest) = Some (ws @ X @ rest)"
      by (rule strip_prefix_ci_append)
    then show ?thesis using ws_token_run[OF assms(2-5)] by (simp add: room_colon_at_def)
  next
    case 2
    then obtain c1 c2 c3 where mk: "mk = [c1, c2, c3]" "lower_ch c1 = CHR ''r''" "lower_ch c2 = CHR ''m''"
      by (auto simp: map_eq_Cons_conv)
    have "strip_prefix_ci ''rm:'' (mk @ ws @ X @ rest) = Some (ws @ X @ rest)"
      using 2 by (rule strip_prefix_ci_append)
    moreover have "strip_prefix_ci ''room:'' (mk @ ws @ X @ rest) = None"
      using mk by simp
    ultimately show ?thesis using ws_token_run[OF assms(2-5)] by (simp add: room_colon_at_def)
  qed
qed

lemma strip_token:
  assumes "X \<noteq> []" "\<forall>c\<in>set X. is_alnum c"
  shows "strip X = X"
proof -
  have h: "\<not> is_space (hd X)" using assms space_not_alnum by (cases X) auto
  have l: "\<not> is_space (last X)" using assms space_not_alnum last_in_set by blast
  have "dropWhile is_space X = X" using h assms(1) by (cases X) auto
  moreover have "dropWhile is_space (rev X) = rev X"
    using l assms(1) by (cases "rev X") (auto simp: last_rev hd_rev)
  ultimately show ?thesis by (simp add: strip_def lstrip_def rstrip_def)
qed

subsection \<open>The extracted tokens\<close>

text \<open>
  Whatever the description, the floor and the room that either script extracts consist
  of ASCII letters and digits only: on them \<^verbatim>\<open>str.isdigit\<close> is the class of the ten
  digits and \<^verbatim>\<open>str.upper\<close> acts letter by letter.
\<close>

lemma search_some: "search m s = Some g \<Longrightarrow> \<exists>t. m t = Some g"
  by (induction s) (auto split: option.splits)

lemma search_b_some: "search_b m p s = Some g \<Longrightarrow> \<exists>q t. m q t = Some g"
  by (induction s arbitrary: p) (auto split: option.splits)

lemma alt_then_some:
  "alt_then kws k s = Some g \<Longrightarrow> \<exists>kw\<in>set kws. \<exists>r. strip_prefix_ci kw s = Some r \<and> k r = Some g"
  by (induction kws) (auto split: option.splits)

lemma token_alnum: "token s = Some g \<Longrightarrow> list_all is_alnum g"
  by (auto simp: token_def Let_def list_all_iff split: if_splits dest: set_takeWhileD)

lemma sep_token_alnum: "sep_token s = Some g \<Longrightarrow> list_all is_alnum g"
  unfolding sep_token_def Let_def by (rule token_alnum)

lemma ws_token_alnum: "ws_token s = Some g \<Longrightarrow> list_all is_alnum g"
  unfolding ws_token_def by (rule token_alnum)

lemma alt_then_alnum:
  assumes "\<And>r g. k r = Some g \<Longrightarrow> list_all is_alnum g" "alt_then kws k s = Some g"
  shows "list_all is_alnum g"
  using alt_then_some[OF assms(2)] assms(1) by blast

lemma kw_at_alnum:
  "floor_kw_at s = Some g \<Longrightarrow> list_all is_alnum g"
  "room_kw_at s = Some g \<Longrightarrow> list_all is_alnum g"
  "floor_colon_at s = Some g \<Longrightarrow> list_all is_alnum g"
  "room_colon_at s = Some g \<Longrightarrow> list_all is_alnum g"
  unfolding floor_kw_at_def room_kw_at_def floor_colon_at_def room_colon_at_def
  by (erule alt_then_alnum[rotated], erule sep_token_alnum ws_token_alnum)+

lemma lower_ch_code_letter:
  assumes "lower_ch c = k" "k \<in> set ''lsf''"
  shows "is_alnum c"
proof (cases "map_of (zip capitals smalls) c")
  case None
  with assms(1) have "c = k" by (simp add: lower_ch_def)
  moreover have "\<forall>k\<in>set ''lsf''. is_alnum k" by code_simp
  ultimately show ?thesis using assms(2) by blast
next
  case (Some d)
  with assms(1) have "d = k" by (simp add: lower_ch_def)
  with Some have "(c, k) \<in> set (zip capitals smalls)" by (auto dest: map_of_SomeD)
  moreover have "\<forall>p\<in>set (zip capitals smalls). snd p \<in> set ''lsf'' \<longrightarrow> is_alnum (fst p)"
    by code_simp
  ultimately show ?thesis using assms(2) by fastforce
qed

lemma strip_prefix_ci_two:
  assumes "strip_prefix_ci [k1, k2] s = Some r"
  obtains c1 c2 where "s = c1 # c2 # r" "lower_ch c1 = k1" "lower_ch c2 = k2"
proof -
  from assms obtain c1 s1 where s: "s = c1 # s1" by (cases s) auto
  with assms have c1: "lower_ch c1 = k1" and r1: "strip_prefix_ci [k2] s1 = Some r"
    by (auto split: if_splits)
  from r1 obtain c2 s2 where s1: "s1 = c2 # s2" by (cases s1) auto
  with r1 have "lower_ch c2 = k2" "s2 = r" by (auto split: if_splits)
  with s s1 c1 show thesis by (auto intro: that)
qed

lemma floor_code_at_alnum:
  assumes "floor_code_at p s = Some g"
  shows "list_all is_alnum g"
proof -
  from assms have a: "alt_then [''ll'', ''sf'']
          (\<lambda>r. if wordb (Some (s ! 1)) r then Some (take 2 s) else None) s = Some g"
    by (auto simp: floor_code_at_def split: if_splits)
  from alt_then_some[OF a] obtain kw r where kw: "kw \<in> set [''ll'', ''sf'']"
    and r: "strip_prefix_ci kw s = Some r" and g: "g = take 2 s"
    by (auto split: if_splits)
  from kw obtain k1 k2 where k: "kw = [k1, k2]" "k1 \<in> set ''lsf''" "k2 \<in> set ''lsf''" by auto
  from r[unfolded k(1)] obtain c1 c2 where s: "s = c1 # c2 # r" "lower_ch c1 = k1" "lower_ch c2 = k2"
    by (rule strip_prefix_ci_two)
  from s(2) k(2) have "is_alnum c1" by (rule lower_ch_code_letter)
  moreover from s(3) k(3) have "is_alnum c2" by (rule lower_ch_code_letter)
  ultimately show ?thesis by (simp add: g s(1))
qed

lemma digit_alnum: "is_digit c \<Longrightarrow> is_alnum c"
  by (simp add: is_alnum_def)

lemma take_digits:
  assumes "n \<le> length (takeWhile is_digit s)"
  shows "list_all is_digit (take n s)"
proof -
  have "take n s = take n (takeWhile is_digit s @ dropWhile is_digit s)" by simp
  also have "\<dots> = take n (takeWhile is_digit s)" using assms by (simp only: take_append) simp
  finally show ?thesis by (auto simp: list_all_iff dest!: in_set_takeD set_takeWhileD)
qed

lemma bare_try_alnum:
  assumes "bare_try n s = Some g"
  shows "list_all is_alnum g"
proof -
  from assms have n: "n \<le> length (takeWhile is_digit s)"
    by (auto simp: bare_try_def split: if_splits)
  then have d: "list_all is_alnum (take n s)"
    using take_digits[OF n] by (auto simp: list_all_iff digit_alnum)
  from assms n consider "g = take n s" | "g = take (Suc n) s" "drop n s \<noteq> []" "is_alpha (hd (drop n s))"
    by (auto simp: bare_try_def Let_def split: if_splits)
  then show ?thesis
  proof cases
    case 1
    with d show ?thesis by simp
  next
    case 2
    from 2(2) have "n < length s" by simp
    then have "take (Suc n) s = take n s @ [s ! n]" by (rule take_Suc_conv_app_nth)
    moreover have "hd (drop n s) = s ! n" using \<open>n < length s\<close> by (simp add: hd_drop_conv_nth)
    ultimately show ?thesis using d 2 by (simp add: is_alnum_def)
  qed
qed

lemma room_bare_at_alnum: "room_bare_at p s = Some g \<Longrightarrow> list_all is_alnum g"
  by (auto simp: room_bare_at_def split: if_splits option.splits dest: bare_try_alnum)

lemma u_find_alnum:
  "list_all is_alnum (u_find_floor desc)" "list_all is_alnum (u_find_room desc)"
  unfolding u_find_floor_def u_find_room_def
  by (auto split: option.splits dest!: search_some search_b_some
           dest: kw_at_alnum floor_code_at_alnum room_bare_at_alnum)

lemma strip_subset: "set (strip s) \<subseteq> set s"
  by (auto simp: strip_def lstrip_def rstrip_def dest!: set_dropWhileD)

lemma letters_alnum:
  "is_alnum CHR ''B''" "is_alnum CHR ''L''" "is_alnum CHR ''S''" "is_alnum CHR ''F''"
  by code_simp+

lemma u_normalize_floor_alnum: "list_all is_alnum f \<Longrightarrow> list_all is_alnum (u_normalize_floor f)"
  by (simp add: u_normalize_floor_def letters_alnum del: set_simps)

lemma normalize_floor_alnum: "list_all is_alnum f \<Longrightarrow> list_all is_alnum (normalize_floor f)"
  by (simp add: normalize_floor_def letters_alnum del: set_simps)

lemma u_fallback_floor_alnum:
  assumes "list_all is_alnum f" "list_all is_alnum r"
  shows "list_all is_alnum (u_fallback_floor f r)"
proof -
  have "list_all is_alnum (take 2 r)" using assms(2) by (auto simp: list_all_iff dest: in_set_takeD)
  moreover have "r \<noteq> [] \<Longrightarrow> is_alnum (hd r)" using assms(2) by (cases r) auto
  ultimately show ?thesis using assms(1)
    by (simp add: u_fallback_floor_def del: set_simps)
qed

lemma floor_of_digit_alnum: "is_alnum c \<Longrightarrow> list_all is_alnum (floor_of_digit c)"
  by (simp add: floor_of_digit_def letters_alnum del: set_simps)

lemma fallback_floor_alnum:
  assumes "list_all is_alnum f" "list_all is_alnum r"
  shows "list_all is_alnum (fallback_floor f r)"
proof -
  have "list_all is_alnum (take 2 r)" using assms(2) by (auto simp: list_all_iff dest: in_set_takeD)
  moreover have "r \<noteq> [] \<Longrightarrow> list_all is_alnum (floor_of_digit (hd r))"
    using assms(2) by (cases r) (auto intro: floor_of_digit_alnum)
  ultimately show ?thesis using assms(1)
    by (simp add: fallback_floor_def del: set_simps)
qed

lemma strip_alnum: "list_all is_alnum g \<Longrightarrow> list_all is_alnum (strip g)"
  using strip_subset by (auto simp: list_all_iff)

lemma extracted_tokens:
  "list_all is_alnum (fst (u_extract_floor_room d)) \<and> list_all is_alnum (snd (u_extract_floor_room d))
   \<and> list_all is_alnum (fst (extract_floor_room d)) \<and> list_all is_alnum (snd (extract_floor_room d))"
proof -
  have f: "list_all is_alnum (case search floor_colon_at s of None \<Rightarrow> [] | Some g \<Rightarrow> strip g)"
   and r: "list_all is_alnum (case search room_colon_at s of None \<Rightarrow> [] | Some g \<Rightarrow> strip g)" for s
    by (auto split: option.splits dest!: search_some dest: kw_at_alnum intro: strip_alnum)
  show ?thesis
    by (cases d)
       (simp_all add: u_extract_floor_room_def extract_floor_room_def Let_def
          u_normalize_floor_alnum u_fallback_floor_alnum u_find_alnum
          normalize_floor_alnum fallback_floor_alnum f r)
qed

subsection \<open>An explicit room marker\<close>

text \<open>
  Claim C1, as stated, fails. \<^verbatim>\<open>re.search\<close> returns the first place where the room
  pattern matches, and in \<^verbatim>\<open>_extract_floor_room\<close> the pattern is the keyword
  \<^verbatim>\<open>room\<close> or \<^verbatim>\<open>rm\<close> with an optional separator: in "Room 5, Rm: 204" the text
  "Room 5" matches before the marker "Rm:" does, and in "Alarm Room: 204" the "rm" that
  ends "Alarm" takes the word "Room" for its token.
\<close>

theorem room_marker_counterexample:
  "snd (u_extract_floor_room (Some ''Room 5, Rm: 204'')) = ''5''
   \<and> snd (u_extract_floor_room (Some ''Alarm Room: 204'')) = ''Room''"
  by code_simp

text \<open>
  Claim C1, amended. Let the stripped description read: some text, a marker \<^verbatim>\<open>Room:\<close>
  or \<^verbatim>\<open>Rm:\<close> in any case, white space, a token \<open>X\<close> of letters and digits, and a
  rest that does not go on with a letter or digit. If the room pattern of the script
  matches at no position before the marker, extraction returns room \<open>X\<close>, whatever
  digit tokens stand elsewhere in the description. This holds for
  \<^verbatim>\<open>_extract_floor_room\<close> and for \<^verbatim>\<open>extract_floor_room\<close>, each with its own pattern.
\<close>

theorem room_marker_first_match:
  assumes "strip d = pre @ mk @ ws @ X @ rest"
      and "lower mk = ''room:'' \<or> lower mk = ''rm:''"
      and "\<forall>c\<in>set ws. is_space c"
      and "X \<noteq> []" and "\<forall>c\<in>set X. is_alnum c"
      and "rest = [] \<or> \<not> is_alnum (hd rest)"
  shows "((\<forall>i<length pre. room_kw_at (drop i (strip d)) = None)
            \<longrightarrow> snd (u_extract_floor_room (Some d)) = X)
       \<and> ((\<forall>i<length pre. room_colon_at (drop i (strip d)) = None)
            \<longrightarrow> snd (extract_floor_room (Some d)) = X)"
proof (intro conjI impI)
  have ne: "strip d \<noteq> []" using assms(1,4) by simp
  then have dne: "d \<noteq> []" by (auto simp: strip_def lstrip_def rstrip_def)
  {
    assume first: "\<forall>i<length pre. room_kw_at (drop i (strip d)) = None"
    have "search room_kw_at (pre @ mk @ ws @ X @ rest) = search room_kw_at (mk @ ws @ X @ rest)"
      using first unfolding assms(1) by (rule search_skip)
    also have "\<dots> = Some X"
      using room_kw_at_marker[OF assms(2-6)] by (rule search_hit)
    finally have "u_find_room (strip d) = X" by (simp add: u_find_room_def assms(1))
    then show "snd (u_extract_floor_room (Some d)) = X"
      using ne by (simp add: u_extract_floor_room_def Let_def)
  }
  {
    assume first: "\<forall>i<length pre. room_colon_at (drop i (strip d)) = None"
    have "search room_colon_at (pre @ mk @ ws @ X @ rest) = search room_colon_at (mk @ ws @ X @ rest)"
      using first unfolding assms(1) by (rule search_skip)
    also have "\<dots> = Some X"
      using room_colon_at_marker[OF assms(2-6)] by (rule search_hit)
    finally have "search room_colon_at (strip d) = Some X" by (simp add: assms(1))
    then show "snd (extract_floor_room (Some d)) = X"
      using dne strip_token[OF assms(4,5)] by (simp add: extract_floor_room_def Let_def)
  }
qed

text \<open>
  The description "1204 Room: 204" holds a bare 1204 and the marker; its room is 204. So
  it is when a no-break space (0xA0) follows the marker.
\<close>

theorem room_marker_first_match_witness:
  "strip ''1204 Room: 204'' = ''1204 '' @ ''Room:'' @ '' '' @ ''204'' @ []
   \<and> snd (u_extract_floor_room (Some ''1204 Room: 204'')) = ''204''
   \<and> snd (extract_floor_room (Some ''1204 Room: 204'')) = ''204''
   \<and> snd (u_extract_floor_room (Some (''1204 Room:'' @ [CHR 0xA0] @ ''204''))) = ''204''
   \<and> snd (extract_floor_room (Some (''1204 Room:'' @ [CHR 0xA0] @ ''204''))) = ''204''"
proof -
  have h1: "strip ''1204 Room: 204'' = ''1204 '' @ ''Room:'' @ '' '' @ ''204'' @ []" by code_simp
  have h2: "lower ''Room:'' = ''room:'' \<or> lower ''Room:'' = ''rm:''" by code_simp
  have h3: "\<forall>c\<in>set '' ''. is_space c" by code_simp
  have h4: "''204'' \<noteq> []" by simp
  have h5: "\<forall>c\<in>set ''204''. is_alnum c" by code_simp
  have h6: "[] = [] \<or> \<not> is_alnum (hd [])" by simp
  have "\<forall>i\<in>set [0..<5]. room_kw_at (drop i (strip ''1204 Room: 204'')) = None" by code_simp
  then have f1: "\<forall>i<length ''1204 ''. room_kw_at (drop i (strip ''1204 Room: 204'')) = None" by simp
  have "\<forall>i\<in>set [0..<5]. room_colon_at (drop i (strip ''1204 Room: 204'')) = None" by code_simp
  then have f2: "\<forall>i<length ''1204 ''. room_colon_at (drop i (strip ''1204 Room: 204'')) = None" by simp
  have k1: "strip (''1204 Room:'' @ [CHR 0xA0] @ ''204'')
              = ''1204 '' @ ''Room:'' @ [CHR 0xA0] @ ''204'' @ []" by code_simp
  have k3: "\<forall>c\<in>set [CHR 0xA0]. is_space c" by code_simp
  have "\<forall>i\<in>set [0..<5]. room_kw_at (drop i (strip (''1204 Room:'' @ [CHR 0xA0] @ ''204''))) = None"
    by code_simp
  then have g1: "\<forall>i<length ''1204 ''.
      room_kw_at (drop i (strip (''1204 Room:'' @ [CHR 0xA0] @ ''204''))) = None" by simp
  have "\<forall>i\<in>set [0..<5]. room_colon_at (drop i (strip (''1204 Room:'' @ [CHR 0xA0] @ ''204''))) = None"
    by code_simp
  then have g2: "\<forall>i<length ''1204 ''.
      room_colon_at (drop i (strip (''1204 Room:'' @ [CHR 0xA0] @ ''204''))) = None" by simp
  from room_marker_first_match[OF h1 h2 h3 h4 h5 h6] f1 f2
  have a: "snd (u_extract_floor_room (Some ''1204 Room: 204'')) = ''204''"
          "snd (extract_floor_room (Some ''1204 Room: 204'')) = ''204''"
    by blast+
  from room_marker_first_match[OF k1 h2 k3 h4 h5 h6] g1 g2
  have b: "snd (u_extract_floor_room (Some (''1204 Room:'' @ [CHR 0xA0] @ ''204''))) = ''204''"
          "snd (extract_floor_room (Some (''1204 Room:'' @ [CHR 0xA0] @ ''204''))) = ''204''"
    by blast+
  from h1 a b show ?thesis by blast
qed

text \<open>
  White space and word boundaries beyond ASCII: a no-break space after a marker is
  skipped, and so is one after the bare keyword \<^verbatim>\<open>rm\<close>; a digit run that follows a
  Latin-1 letter starts at no word boundary.
\<close>

lemma latin1_examples:
  "u_extract_floor_room (Some (''Room:'' @ [CHR 0xA0] @ ''B12'')) = ([], ''B12'')"
  "extract_floor_room (Some (''Room:'' @ [CHR 0xA0] @ ''B12'')) = ([], ''B12'')"
  "u_extract_floor_room (Some (''rm'' @ [CHR 0xA0] @ ''x Room: 204'')) = ([], ''x'')"
  "u_extract_floor_room (Some (''Floor:'' @ [CHR 0xA0] @ ''3 Room: 204'')) = (''3'', ''204'')"
  "u_extract_floor_room (Some (''Room:'' @ [CHR 0xA0] @ ''12'')) = (''12'', ''12'')"
  "u_extract_floor_room (Some (''caf'' @ [CHR 0xE9] @ ''204 leak'')) = ([], [])"
  by code_simp+

subsection \<open>The four descriptions of the end-to-end scenario\<close>

text \<open>
  Claim C3, as stated, fails on the fourth description: no rule of either script derives
  a floor from the room "B12", whose first character is a letter, so its floor is empty
  and not "B".
\<close>

theorem scenario_floors_counterexample:
  "map (\<lambda>d. fst (u_extract_floor_room (Some d)))
     [''Floor: 2 Room: 204'', ''Room: 1104'', ''Elevator near 2nd floor hallway'',
      ''Basement storage Rm: B12'']
     \<noteq> [''2'', ''11'', [], ''B'']
   \<and> map (\<lambda>d. fst (extract_floor_room (Some d)))
     [''Floor: 2 Room: 204'', ''Room: 1104'', ''Elevator near 2nd floor hallway'',
      ''Basement storage Rm: B12'']
     \<noteq> [''2'', ''11'', [], ''B'']"
  by code_simp

text \<open>
  Claim C3, amended. \<^verbatim>\<open>extract_floor_room\<close> yields the floors "2", "11", "" and "" for
  the four descriptions; \<^verbatim>\<open>_extract_floor_room\<close> yields "2", "11" and "" for the
  first, the second and the fourth.
\<close>

theorem scenario_floors:
  "map (\<lambda>d. fst (extract_floor_room (Some d)))
     [''Floor: 2 Room: 204'', ''Room: 1104'', ''Elevator near 2nd floor hallway'',
      ''Basement storage Rm: B12'']
     = [''2'', ''11'', [], []]
   \<and> map (\<lambda>d. fst (u_extract_floor_room (Some d)))
     [''Floor: 2 Room: 204'', ''Room: 1104'', ''Basement storage Rm: B12'']
     = [''2'', ''11'', []]"
  by code_simp

text \<open>
  On the third description the floor pattern of \<^verbatim>\<open>_extract_floor_room\<close>, which asks
  for no colon, takes the word after "floor".
\<close>

lemma u_extract_third_description:
  "u_extract_floor_room (Some ''Elevator near 2nd floor hallway'') = (''hallway'', [])"
  by code_simp

subsection \<open>The floor derived from the room\<close>

lemma highrise_digits: "\<forall>h\<in>set [''10'', ''11'', ''12'']. str_isdigit h \<and> length h = 2"
  by code_simp

lemma highrise_isdigit:
  assumes "take 2 rm \<in> set [''10'', ''11'', ''12'']"
  shows "2 \<le> length rm \<and> str_isdigit (take 2 rm) \<and> rm \<noteq> []"
proof -
  from assms highrise_digits have d: "str_isdigit (take 2 rm)" and l: "length (take 2 rm) = 2"
    by blast+
  from l have "2 \<le> length rm" by simp
  with d show ?thesis by auto
qed

lemma u_normalize_digit:
  "is_digit c \<Longrightarrow> u_normalize_floor [c] = (if c = CHR ''0'' then ''B'' else [c])"
proof -
  have "\<forall>c\<in>set ''0123456789''. u_normalize_floor [c] = (if c = CHR ''0'' then ''B'' else [c])"
    by code_simp
  then show "is_digit c \<Longrightarrow> ?thesis" unfolding is_digit_def by blast
qed
lemma normalize_floor_of_digit:
  "is_digit c \<Longrightarrow> normalize_floor (floor_of_digit c) = (if c = CHR ''0'' then ''B'' else [c])"
proof -
  have "\<forall>c\<in>set ''0123456789''. normalize_floor (floor_of_digit c) = (if c = CHR ''0'' then ''B'' else [c])"
    by code_simp
  then show "is_digit c \<Longrightarrow> ?thesis" unfolding is_digit_def by blast
qed
lemma u_normalize_highrise:
  "h \<in> set [''10'', ''11'', ''12''] \<Longrightarrow> u_normalize_floor h = h"
proof -
  have "\<forall>h\<in>set [''10'', ''11'', ''12'']. u_normalize_floor h = h" by code_simp
  then show "h \<in> set [''10'', ''11'', ''12''] \<Longrightarrow> ?thesis" by blast
qed
lemma normalize_highrise:
  "h \<in> set [''10'', ''11'', ''12''] \<Longrightarrow> normalize_floor h = h"
proof -
  have "\<forall>h\<in>set [''10'', ''11'', ''12'']. normalize_floor h = h" by code_simp
  then show "h \<in> set [''10'', ''11'', ''12''] \<Longrightarrow> ?thesis" by blast
qed

lemma u_fallback_cases:
  "u_normalize_floor (u_fallback_floor [] rm) =
     (if take 2 rm \<in> set [''10'', ''11'', ''12''] then take 2 rm
      else if rm \<noteq> [] \<and> is_digit (hd rm) then (if hd rm = CHR ''0'' then ''B'' else [hd rm])
      else [])"
proof (cases "take 2 rm \<in> set [''10'', ''11'', ''12'']")
  case True
  from highrise_isdigit[OF True] True show ?thesis
    by (simp only: u_fallback_floor_def u_normalize_highrise[OF True] if_True simp_thms)
next
  case False
  show ?thesis
  proof (cases "rm \<noteq> [] \<and> is_digit (hd rm)")
    case True
    then have "u_fallback_floor [] rm = [hd rm]" using False by (simp add: u_fallback_floor_def)
    then show ?thesis using False True by (simp add: u_normalize_digit)
  next
    case nd: False
    have "\<not> (2 \<le> length rm \<and> str_isdigit (take 2 rm))"
    proof
      assume a: "2 \<le> length rm \<and> str_isdigit (take 2 rm)"
      then obtain x y zs where "rm = x # y # zs" by (cases rm; cases "tl rm") auto
      with a have "rm \<noteq> [] \<and> is_digit (hd rm)" by (simp add: str_isdigit_def)
      with nd show False by simp
    qed
    then have "u_fallback_floor [] rm = []" using nd by (auto simp: u_fallback_floor_def)
    moreover have "u_normalize_floor [] = []" by (simp add: u_normalize_floor_def upper_def)
    ultimately show ?thesis using False nd by (simp only: if_False)
  qed
qed

lemma fallback_cases:
  "normalize_floor (fallback_floor [] rm) =
     (if 4 \<le> length rm \<and> take 2 rm \<in> set [''10'', ''11'', ''12''] then take 2 rm
      else if rm \<noteq> [] \<and> is_digit (hd rm) then (if hd rm = CHR ''0'' then ''B'' else [hd rm])
      else normalize_floor (if rm = [] then [] else floor_of_digit (hd rm)))"
proof (cases "4 \<le> length rm \<and> take 2 rm \<in> set [''10'', ''11'', ''12'']")
  case True
  then have h: "take 2 rm \<in> set [''10'', ''11'', ''12'']" by simp
  from highrise_isdigit[OF h] True have "fallback_floor [] rm = take 2 rm"
    by (simp only: fallback_floor_def if_True simp_thms)
  then show ?thesis using True normalize_highrise[OF h] by simp
next
  case False
  have "fallback_floor [] rm = (if rm = [] then [] else floor_of_digit (hd rm))"
    using False by (auto simp: fallback_floor_def)
  then show ?thesis using False by (auto simp: normalize_floor_of_digit)
qed

text \<open>
  Claim C2, as stated, fails. A room that starts with the digit 0 gets the floor "B",
  not "0": \<^verbatim>\<open>_extract_floor_room\<close> normalises "0" to "B" after the fallback, and the
  table of \<^verbatim>\<open>extract_floor_room\<close> maps "0" to "B". And \<^verbatim>\<open>extract_floor_room\<close>
  applies the prefixes 10, 11, 12 only to a room of four characters or more.
\<close>

theorem fallback_floor_counterexample:
  "fst (u_extract_floor_room (Some ''Room: 012'')) = ''B''
   \<and> fst (extract_floor_room (Some ''Room: 012'')) = ''B''
   \<and> fst (extract_floor_room (Some ''Room: 110'')) = ''1''"
  by code_simp

text \<open>
  Claim C2, amended. Let no floor pattern of the script match the stripped description,
  and let the script extract the room \<open>rm\<close>. In \<^verbatim>\<open>_extract_floor_room\<close>: if the
  first two characters of \<open>rm\<close> are 10, 11 or 12, the floor is that prefix; otherwise,
  if \<open>rm\<close> starts with a digit, the floor is that digit, except that the digit 0 gives
  the floor "B". In \<^verbatim>\<open>extract_floor_room\<close> the same holds, with the prefix rule
  applied only when \<open>rm\<close> has at least four characters.
\<close>

theorem fallback_floor_from_room:
  assumes "u_extract_floor_room (Some d) = (fl, rm)" and "extract_floor_room (Some d) = (fl', rm')"
  shows "(u_find_floor (strip d) = [] \<longrightarrow>
            (take 2 rm \<in> set [''10'', ''11'', ''12''] \<longrightarrow> fl = take 2 rm)
          \<and> (take 2 rm \<notin> set [''10'', ''11'', ''12''] \<and> rm \<noteq> [] \<and> is_digit (hd rm)
               \<longrightarrow> fl = (if hd rm = CHR ''0'' then ''B'' else [hd rm])))
       \<and> (search floor_colon_at (strip d) = None \<longrightarrow>
            (4 \<le> length rm' \<and> take 2 rm' \<in> set [''10'', ''11'', ''12''] \<longrightarrow> fl' = take 2 rm')
          \<and> (\<not> (4 \<le> length rm' \<and> take 2 rm' \<in> set [''10'', ''11'', ''12''])
               \<and> rm' \<noteq> [] \<and> is_digit (hd rm')
               \<longrightarrow> fl' = (if hd rm' = CHR ''0'' then ''B'' else [hd rm'])))"
proof (intro conjI impI)
  assume nf: "u_find_floor (strip d) = []"
  show "fl = take 2 rm" if "take 2 rm \<in> set [''10'', ''11'', ''12'']"
  proof -
    from that have "rm \<noteq> []" by auto
    with assms(1) have "strip d \<noteq> []" by (auto simp: u_extract_floor_room_def)
    with assms(1) nf have "fl = u_normalize_floor (u_fallback_floor [] rm)"
      by (auto simp: u_extract_floor_room_def Let_def)
    then show ?thesis using that by (simp only: u_fallback_cases if_True)
  qed
  show "fl = (if hd rm = CHR ''0'' then ''B'' else [hd rm])"
    if "take 2 rm \<notin> set [''10'', ''11'', ''12''] \<and> rm \<noteq> [] \<and> is_digit (hd rm)"
  proof -
    from that assms(1) have "strip d \<noteq> []" by (auto simp: u_extract_floor_room_def)
    with assms(1) nf have "fl = u_normalize_floor (u_fallback_floor [] rm)"
      by (auto simp: u_extract_floor_room_def Let_def)
    then show ?thesis using that by (simp only: u_fallback_cases if_True if_False simp_thms)
  qed
next
  assume nf: "search floor_colon_at (strip d) = None"
  show "fl' = take 2 rm'" if "4 \<le> length rm' \<and> take 2 rm' \<in> set [''10'', ''11'', ''12'']"
  proof -
    from that have "rm' \<noteq> []" by auto
    with assms(2) have "d \<noteq> []" by (auto simp: extract_floor_room_def)
    with assms(2) nf have "fl' = normalize_floor (fallback_floor [] rm')"
      by (auto simp: extract_floor_room_def Let_def)
    then show ?thesis using that by (simp only: fallback_cases if_True simp_thms)
  qed
  show "fl' = (if hd rm' = CHR ''0'' then ''B'' else [hd rm'])"
    if "\<not> (4 \<le> length rm' \<and> take 2 rm' \<in> set [''10'', ''11'', ''12'']) \<and> rm' \<noteq> [] \<and> is_digit (hd rm')"
  proof -
    from that assms(2) have "d \<noteq> []" by (auto simp: extract_floor_room_def)
    with assms(2) nf have "fl' = normalize_floor (fallback_floor [] rm')"
      by (auto simp: extract_floor_room_def Let_def)
    then show ?thesis using that by (simp only: fallback_cases if_True if_False simp_thms)
  qed
qed


text \<open>
  "Room: 1104" yields the floor "11" and "Room: 204" the floor "2", in both scripts; with
  a no-break space after the marker, the room 12 yields the floor "12" in
  \<^verbatim>\<open>_extract_floor_room\<close> and the floor "1" in \<^verbatim>\<open>extract_floor_room\<close>.
\<close>

theorem fallback_floor_from_room_witness:
  "u_find_floor (strip ''Room: 1104'') = [] \<and> search floor_colon_at (strip ''Room: 1104'') = None
   \<and> fst (u_extract_floor_room (Some ''Room: 1104'')) = ''11''
   \<and> fst (extract_floor_room (Some ''Room: 1104'')) = ''11''
   \<and> u_find_floor (strip ''Room: 204'') = [] \<and> search floor_colon_at (strip ''Room: 204'') = None
   \<and> fst (u_extract_floor_room (Some ''Room: 204'')) = ''2''
   \<and> fst (extract_floor_room (Some ''Room: 204'')) = ''2''
   \<and> fst (u_extract_floor_room (Some (''Room:'' @ [CHR 0xA0] @ ''12''))) = ''12''
   \<and> fst (extract_floor_room (Some (''Room:'' @ [CHR 0xA0] @ ''12''))) = ''1''"
proof -
  have a1: "u_extract_floor_room (Some ''Room: 1104'')
              = (fst (u_extract_floor_room (Some ''Room: 1104'')), ''1104'')"
   and b1: "extract_floor_room (Some ''Room: 1104'')
              = (fst (extract_floor_room (Some ''Room: 1104'')), ''1104'')"
   and a2: "u_extract_floor_room (Some ''Room: 204'')
              = (fst (u_extract_floor_room (Some ''Room: 204'')), ''204'')"
   and b2: "extract_floor_room (Some ''Room: 204'')
              = (fst (extract_floor_room (Some ''Room: 204'')), ''204'')"
   and a3: "u_extract_floor_room (Some (''Room:'' @ [CHR 0xA0] @ ''12''))
              = (fst (u_extract_floor_room (Some (''Room:'' @ [CHR 0xA0] @ ''12''))), ''12'')"
   and b3: "extract_floor_room (Some (''Room:'' @ [CHR 0xA0] @ ''12''))
              = (fst (extract_floor_room (Some (''Room:'' @ [CHR 0xA0] @ ''12''))), ''12'')"
    by code_simp+
  have n1: "u_find_floor (strip ''Room: 1104'') = []"
   and m1: "search floor_colon_at (strip ''Room: 1104'') = None"
   and n2: "u_find_floor (strip ''Room: 204'') = []"
   and m2: "search floor_colon_at (strip ''Room: 204'') = None"
   and n3: "u_find_floor (strip (''Room:'' @ [CHR 0xA0] @ ''12'')) = []"
   and m3: "search floor_colon_at (strip (''Room:'' @ [CHR 0xA0] @ ''12'')) = None"
    by code_simp+
  have d2: "is_digit (hd ''204'')" and d3: "is_digit (hd ''12'')" by code_simp+
  from fallback_floor_from_room[OF a1 b1] n1 m1
  have "fst (u_extract_floor_room (Some ''Room: 1104'')) = ''11''"
       "fst (extract_floor_room (Some ''Room: 1104'')) = ''11''"
    by simp_all
  moreover from fallback_floor_from_room[OF a2 b2] n2 m2 d2
  have "fst (u_extract_floor_room (Some ''Room: 204'')) = ''2''"
       "fst (extract_floor_room (Some ''Room: 204'')) = ''2''"
    by simp_all
  moreover from fallback_floor_from_room[OF a3 b3] n3 m3 d3
  have "fst (u_extract_floor_room (Some (''Room:'' @ [CHR 0xA0] @ ''12''))) = ''12''"
       "fst (extract_floor_room (Some (''Room:'' @ [CHR 0xA0] @ ''12''))) = ''1''"
    by simp_all
  ultimately show ?thesis using n1 m1 n2 m2 by simp
qed

subsection \<open>The order of the floors\<close>

lemma u_floor_rank_values:
  "u_floor_rank [] = (0, 0, [])" "u_floor_rank ''B'' = (1, 0, ''B'')"
  "u_floor_rank ''SF'' = (1, 0, ''SF'')" "u_floor_rank ''1'' = (2, 1, [])"
  "u_floor_rank ''2'' = (2, 2, [])"
  by code_simp+

lemma floor_rank_values:
  "floor_rank [] = 999" "floor_rank ''B'' = 0" "floor_rank ''SF'' = 99"
  "floor_rank ''1'' = 1" "floor_rank ''2'' = 2"
  by code_simp+

text \<open>
  Claim C4, as stated, fails: neither script puts the floors "", "B", "2", "SF", "1" in
  the order blank, B, 1, 2, SF.
\<close>

theorem floor_order_counterexample:
  "map floor (sort_values u_sort_key
      (map (\<lambda>f. \<lparr> building = ''ETB'', floor = f, room = ''101'', age = None, status = ''Pending'',
                    source = Map.empty \<rparr>)
           [[], ''B'', ''2'', ''SF'', ''1'']))
     \<noteq> [[], ''B'', ''1'', ''2'', ''SF'']
   \<and> map f_floor (sort_values fmt_sort_key
      (map (\<lambda>f. \<lparr> f_age = None, f_floor = f, f_room = ''101'', f_status = ''Pending'',
                    f_source = Map.empty \<rparr>)
           [[], ''B'', ''2'', ''SF'', ''1'']))
     \<noteq> [[], ''B'', ''1'', ''2'', ''SF'']"
  by code_simp

text \<open>
  Claim C4, amended. For records with the floors "", "B", "2", "SF", "1" and all other
  fields equal, \<^verbatim>\<open>prepare_dataframe\<close> sorts the blank floor first, then the special
  floors B and SF, then the numeric floors 1 and 2 (the tiers of \<^verbatim>\<open>_floor_rank\<close>:
  "blank -> B/LL/SF -> numeric"); \<^verbatim>\<open>run_aim_formatter\<close> sorts B first, then 1 and 2,
  then SF, and the blank floor last (the ranks 0, 1, 2, 99, 999 of \<^verbatim>\<open>floor_rank\<close>).
\<close>

theorem floor_order:
  "map floor (sort_values u_sort_key
      (map (\<lambda>f. \<lparr> building = b, floor = f, room = rm, age = a, status = st, source = src \<rparr>)
           [[], ''B'', ''2'', ''SF'', ''1'']))
     = [[], ''B'', ''SF'', ''1'', ''2'']
   \<and> map f_floor (sort_values fmt_sort_key
      (map (\<lambda>f. \<lparr> f_age = a, f_floor = f, f_room = rm, f_status = st, f_source = src \<rparr>)
           [[], ''B'', ''2'', ''SF'', ''1'']))
     = [''B'', ''1'', ''2'', ''SF'', []]"
  by (simp add: sort_values_def u_sort_key_def fmt_sort_key_def u_floor_rank_values
        floor_rank_values less_eq_prod_def less_prod_def)

subsection \<open>Common-area rooms\<close>

text \<open>
  Claim C5, as stated, fails. \<^verbatim>\<open>room_rank\<close> looks for the substrings HALL, STR and
  ELEV: "Stairwell" holds none of them and ranks with "Lobby". Its bucket has the rank
  700000, so a room number above that sorts after it. \<^verbatim>\<open>_room_rank\<close> has no
  common-area bucket: "Hallway A" sorts before "Lobby" by its text.
\<close>

theorem common_area_counterexample:
  "room_rank ''Stairwell'' = room_rank ''Lobby''
   \<and> room_rank ''Hallway'' < room_rank ''700001''
   \<and> u_room_rank ''Hallway A'' < u_room_rank ''Lobby''"
  by code_simp

text \<open>
  Claim C5, amended. Let \<open>a\<close> and \<open>b\<close> be room labels that are not blank, and let
  the upper-cased \<open>a\<close> contain HALL, STR or ELEV. In \<^verbatim>\<open>room_rank\<close>, \<open>a\<close> has the
  rank 700000, before the blank label only; it sorts after \<open>b\<close> when \<open>b\<close> holds
  none of the three substrings and has no leading digits or a leading number below
  700000. In \<^verbatim>\<open>_room_rank\<close>, when \<open>a\<close> has no leading digit it sorts after every
  \<open>b\<close> with a leading digit.
\<close>

theorem common_area_rank:
  assumes "strip a \<noteq> []" and "strip b \<noteq> []"
      and "contains ''HALL'' (strip (upper a)) \<or> contains ''STR'' (strip (upper a))
           \<or> contains ''ELEV'' (strip (upper a))"
  shows "room_rank a = 700000 \<and> room_rank a < room_rank []
       \<and> (\<not> (contains ''HALL'' (strip (upper b)) \<or> contains ''STR'' (strip (upper b))
               \<or> contains ''ELEV'' (strip (upper b)))
            \<and> (takeWhile is_digit (strip (upper b)) = []
                \<or> int_of_digits (takeWhile is_digit (strip (upper b))) < 700000)
            \<longrightarrow> room_rank b < room_rank a)
       \<and> (takeWhile is_digit (strip (upper a)) = [] \<and> takeWhile is_digit (strip (upper b)) \<noteq> []
            \<longrightarrow> u_room_rank b < u_room_rank a)"
proof (intro conjI impI)
  have a: "a \<noteq> []" and b: "b \<noteq> []" using assms(1,2) by (auto simp: strip_def lstrip_def rstrip_def)
  show ra: "room_rank a = 700000" using assms(1,3) a by (simp add: room_rank_def Let_def)
  have blank: "room_rank [] = 999999" by (simp add: room_rank_def)
  show "room_rank a < room_rank []" by (simp add: ra blank)
  {
    assume h: "\<not> (contains ''HALL'' (strip (upper b)) \<or> contains ''STR'' (strip (upper b))
               \<or> contains ''ELEV'' (strip (upper b)))
            \<and> (takeWhile is_digit (strip (upper b)) = []
                \<or> int_of_digits (takeWhile is_digit (strip (upper b))) < 700000)"
    then have "room_rank b < 700000" using assms(2) b by (auto simp: room_rank_def Let_def)
    then show "room_rank b < room_rank a" by (simp add: ra)
  }
  {
    assume h: "takeWhile is_digit (strip (upper a)) = [] \<and> takeWhile is_digit (strip (upper b)) \<noteq> []"
    then have "fst (u_room_rank a) = 2" "fst (u_room_rank b) = 1"
      using assms(1,2) by (simp_all add: u_room_rank_def Let_def)
    then show "u_room_rank b < u_room_rank a"
      by (cases "u_room_rank a"; cases "u_room_rank b") (simp add: less_prod_def)
  }
qed

text \<open>The room "Hallway A" sorts after the room "310", in both scripts.\<close>

theorem common_area_rank_witness:
  "room_rank ''Hallway A'' = 700000 \<and> room_rank ''310'' < room_rank ''Hallway A''
   \<and> u_room_rank ''310'' < u_room_rank ''Hallway A''"
proof -
  have h1: "strip ''Hallway A'' \<noteq> []" and h2: "strip ''310'' \<noteq> []" by code_simp+
  have h3: "contains ''HALL'' (strip (upper ''Hallway A'')) \<or> contains ''STR'' (strip (upper ''Hallway A''))
           \<or> contains ''ELEV'' (strip (upper ''Hallway A''))" by code_simp
  have h4: "\<not> (contains ''HALL'' (strip (upper ''310'')) \<or> contains ''STR'' (strip (upper ''310''))
               \<or> contains ''ELEV'' (strip (upper ''310'')))
            \<and> (takeWhile is_digit (strip (upper ''310'')) = []
                \<or> int_of_digits (takeWhile is_digit (strip (upper ''310''))) < 700000)" by code_simp
  have h5: "takeWhile is_digit (strip (upper ''Hallway A'')) = [] \<and> takeWhile is_digit (strip (upper ''310'')) \<noteq> []"
    by code_simp
  from common_area_rank[OF h1 h2 h3] h4 h5 show ?thesis by blast
qed

subsection \<open>A start date after the end date\<close>

text \<open>
  Claim C10: there are inputs with the start date after the end date on which the
  business-day computation returns a negative number, neither zero nor None. From
  Wednesday 1970-01-07 (day 6) back to Monday 1970-01-05 (day 4) both scripts return -2.
\<close>

theorem future_start_negative_age:
  "\<exists>s e n. e < s \<and> n < 0 \<and> u_business_days (Some s) e = Some n
            \<and> calculate_business_days (Some s) e = Some n"
proof -
  have "u_business_days (Some 6) 4 = Some (-2)" by code_simp
  moreover have "calculate_business_days (Some 6) 4 = Some (-2)" by code_simp
  ultimately show ?thesis by (intro exI[of _ 6] exI[of _ 4] exI[of _ "-2"]) simp
qed

subsection \<open>Counting business days\<close>

lemma busday_count_card:
  assumes "s \<le> e"
  shows "busday_count s e = int (card {d. s \<le> d \<and> d < e \<and> weekday d < 5})"
proof -
  have "length (filter is_busday [s..e - 1]) = card ({d. is_busday d} \<inter> set [s..e - 1])"
    by (rule distinct_length_filter) simp
  also have "{d. is_busday d} \<inter> set [s..e - 1] = {d. s \<le> d \<and> d < e \<and> weekday d < 5}"
    by (auto simp: is_busday_def)
  finally show ?thesis using assms by (simp add: busday_count_def)
qed

lemma weekday_shift:
  assumes "weekday m = 0" "0 \<le> k" "k < 7"
  shows "weekday (m + k) = k"
  using assms unfolding weekday_def by presburger

lemma busday_count_week:
  assumes "weekday m = 0"
  shows "busday_count m (m + 7) = 5"
proof -
  have up: "[m..m + 7 - 1] = [m, m + 1, m + 2, m + 3, m + 4, m + 5, m + 6]"
    by (simp add: upto_rec1)
  have w: "weekday (m + 1) = 1" "weekday (m + 2) = 2" "weekday (m + 3) = 3"
          "weekday (m + 4) = 4" "weekday (m + 5) = 5" "weekday (m + 6) = 6"
    using weekday_shift[OF assms] by simp_all
  have "filter is_busday [m..m + 7 - 1] = [m, m + 1, m + 2, m + 3, m + 4]"
    unfolding up by (simp add: is_busday_def w assms)
  then show ?thesis by (simp add: busday_count_def)
qed

lemma calculate_business_days_eq:
  "calculate_business_days start e = u_business_days start e"
  by (cases start) (simp_all add: calculate_business_days_def u_business_days_def Let_def)

text \<open>
  Claim C7: for a start date not after the end date, the business-day count is the
  number of days from the start date up to, not including, the end date that fall on
  Monday to Friday; from a Monday to the Monday after it the count is 5. Both
  \<^verbatim>\<open>_business_days\<close> and \<^verbatim>\<open>calculate_business_days\<close> return it.
\<close>

theorem business_days_end_exclusive:
  "(s \<le> e \<longrightarrow>
      u_business_days (Some s) e = Some (int (card {d. s \<le> d \<and> d < e \<and> weekday d < 5}))
    \<and> calculate_business_days (Some s) e = Some (int (card {d. s \<le> d \<and> d < e \<and> weekday d < 5})))
   \<and> (weekday m = 0 \<longrightarrow>
      u_business_days (Some m) (m + 7) = Some 5 \<and> calculate_business_days (Some m) (m + 7) = Some 5)"
proof (intro conjI impI)
  assume "s \<le> e"
  then show "u_business_days (Some s) e = Some (int (card {d. s \<le> d \<and> d < e \<and> weekday d < 5}))"
    by (simp only: u_business_days_def option.case busday_count_card)
  then show "calculate_business_days (Some s) e = Some (int (card {d. s \<le> d \<and> d < e \<and> weekday d < 5}))"
    by (simp only: calculate_business_days_eq)
next
  assume "weekday m = 0"
  then show "u_business_days (Some m) (m + 7) = Some 5"
    by (simp only: u_business_days_def option.case busday_count_week)
  then show "calculate_business_days (Some m) (m + 7) = Some 5"
    by (simp only: calculate_business_days_eq)
qed

text \<open>Monday 1970-01-05 is day 4; the Monday after it is day 11.\<close>

theorem business_days_end_exclusive_witness:
  "weekday 4 = 0
   \<and> u_business_days (Some 4) 11 = Some (int (card {d. 4 \<le> d \<and> d < 11 \<and> weekday d < 5}))
   \<and> u_business_days (Some 4) (4 + 7) = Some 5
   \<and> calculate_business_days (Some 4) (4 + 7) = Some 5"
proof -
  have m: "weekday 4 = 0" by code_simp
  have le: "(4::int) \<le> 11" by simp
  from business_days_end_exclusive[of 4 11 4] m le show ?thesis by blast
qed

subsection \<open>The pipelines\<close>

lemma sum_case_eqI: "(case x of Inl e \<Rightarrow> Some e | Inr v \<Rightarrow> None) = Some e' \<Longrightarrow> x = Inl e'"
  by (cases x) auto

lemma sum_case_InrE:
  assumes "(case x of Inl e \<Rightarrow> None | Inr v \<Rightarrow> Some (f v)) = Some y"
  obtains v where "x = Inr v" "f v = y"
  using assms by (cases x) auto

lemma collect_length: "collect xs = Inr vs \<Longrightarrow> length vs = length xs"
  by (induction xs arbitrary: vs) (auto split: sum.splits)

lemma u_ages_map:
  "u_ages parse today fr =
     map (\<lambda>r. case u_date_column (cols fr) of
                 None \<Rightarrow> None
               | Some c \<Rightarrow> u_business_days
                   (case r c of None \<Rightarrow> None | Some s \<Rightarrow> parse (map (\<lambda>r. r c) (rows fr)) s) today)
         (rows fr)"
  by (simp add: u_ages_def to_datetime_coerce_def comp_def split: option.splits)

lemma u_ages_length: "length (u_ages parse today fr) = length (rows fr)"
  by (simp add: u_ages_map)

lemma zip_map_same: "(x, y) \<in> set (zip xs (map f xs)) \<Longrightarrow> y = f x"
  by (induction xs) auto

lemma source_u_enrich:
  "length ages = length rs \<Longrightarrow> map source (map (u_enrich fr dc) (zip rs ages)) = rs"
proof -
  assume "length ages = length rs"
  then have "map fst (zip rs ages) = rs" by simp
  moreover have "map source (map (u_enrich fr dc) (zip rs ages)) = map fst (zip rs ages)"
    by (simp add: u_enrich_def)
  ultimately show ?thesis by simp
qed

lemma prepare_dataframe_Inr:
  assumes "prepare_dataframe parse today fr = Inr out"
  obtains dc where "u_find_column (cols fr) [''description'', ''desc''] = Some dc" "rows fr \<noteq> []"
    "out = sort_values u_sort_key (map (u_enrich fr dc) (zip (rows fr) (u_ages parse today fr)))"
  using assms by (auto simp: prepare_dataframe_def split: option.splits if_splits)

lemma run_aim_formatter_Inr:
  assumes "run_aim_formatter parse today fr = Inr out"
  obtains w d t ages where
    "find_col (cols fr) ''work'' = Some w" "find_col (cols fr) ''desc'' = Some d"
    "find_col (cols fr) ''date'' = Some t"
    "length ages = length (rows fr)"
    "out = sort_values fmt_sort_key
             (map (\<lambda>(r, a). \<lparr> f_age = a,
                              f_floor = fst (extract_floor_room (r ''Description'')),
                              f_room = snd (extract_floor_room (r ''Description'')),
                              f_status = ''Pending'',
                              f_source = r \<rparr>)
                  (zip (rows (rename (Map.empty(w \<mapsto> ''Work Order'', d \<mapsto> ''Description'',
                                               t \<mapsto> ''Date Created'')) fr)) ages))"
proof -
  from assms obtain w d t where f: "find_col (cols fr) ''work'' = Some w"
      "find_col (cols fr) ''desc'' = Some d" "find_col (cols fr) ''date'' = Some t"
    by (auto simp: run_aim_formatter_def split: option.splits)
  let ?fr = "rename (Map.empty(w \<mapsto> ''Work Order'', d \<mapsto> ''Description'', t \<mapsto> ''Date Created'')) fr"
  from assms f obtain ages where
    c: "collect (map (\<lambda>r. case to_datetime parse (r ''Date Created'') of
                            Inl e \<Rightarrow> Inl e
                          | Inr d \<Rightarrow> Inr (calculate_business_days d today)) (rows ?fr)) = Inr ages"
    and o: "out = sort_values fmt_sort_key
             (map (\<lambda>(r, a). \<lparr> f_age = a,
                              f_floor = fst (extract_floor_room (r ''Description'')),
                              f_room = snd (extract_floor_room (r ''Description'')),
                              f_status = ''Pending'',
                              f_source = r \<rparr>)
                  (zip (rows ?fr) ages))"
    by (auto simp: run_aim_formatter_def Let_def split: sum.splits if_splits)
  from collect_length[OF c] have len: "length ages = length (rows fr)" by (simp add: rename_def Let_def)
  show thesis by (rule that[OF f len o])
qed

subsection \<open>The sort is stable\<close>

text \<open>
  Claim C6: the record sort is stable. When \<^verbatim>\<open>prepare_dataframe\<close> returns, its
  output is the list of the enriched input rows, taken in input order, sorted by the key
  (building rank, floor rank, room rank): for every key, the output rows with that key
  are the input rows with that key, in their input order. The same holds for
  \<^verbatim>\<open>run_aim_formatter\<close>, the rows of the frame renamed by the columns it has found,
  and its key (floor rank, room rank). The order among equal keys is that of
  \<open>sort_values\<close>.
\<close>

theorem sort_is_stable:
  "(prepare_dataframe parse today fr = Inr out \<longrightarrow>
      (\<exists>pre. map source pre = rows fr
             \<and> length out = length pre \<and> set out = set pre \<and> sorted (map u_sort_key out)
             \<and> (\<forall>k. filter (\<lambda>r. u_sort_key r = k) out = filter (\<lambda>r. u_sort_key r = k) pre)))
   \<and> (run_aim_formatter parse1 today fr = Inr out' \<longrightarrow>
      (\<exists>pre w d t. find_col (cols fr) ''work'' = Some w \<and> find_col (cols fr) ''desc'' = Some d
             \<and> find_col (cols fr) ''date'' = Some t
             \<and> map f_source pre = rows (rename (Map.empty(w \<mapsto> ''Work Order'',
                                     d \<mapsto> ''Description'', t \<mapsto> ''Date Created'')) fr)
             \<and> length out' = length pre \<and> set out' = set pre \<and> sorted (map fmt_sort_key out')
             \<and> (\<forall>k. filter (\<lambda>r. fmt_sort_key r = k) out' = filter (\<lambda>r. fmt_sort_key r = k) pre)))"
proof (intro conjI impI)
  assume "prepare_dataframe parse today fr = Inr out"
  then obtain dc where
    out: "out = sort_values u_sort_key (map (u_enrich fr dc) (zip (rows fr) (u_ages parse today fr)))"
    by (rule prepare_dataframe_Inr)
  let ?pre = "map (u_enrich fr dc) (zip (rows fr) (u_ages parse today fr))"
  have "map source ?pre = rows fr" by (rule source_u_enrich) (rule u_ages_length)
  moreover have "length out = length ?pre" "set out = set ?pre" "sorted (map u_sort_key out)"
    by (simp_all add: out sort_values_def)
  moreover have "\<forall>k. filter (\<lambda>r. u_sort_key r = k) out = filter (\<lambda>r. u_sort_key r = k) ?pre"
    by (simp add: out sort_values_def sort_key_stable)
  ultimately show "\<exists>pre. map source pre = rows fr
             \<and> length out = length pre \<and> set out = set pre \<and> sorted (map u_sort_key out)
             \<and> (\<forall>k. filter (\<lambda>r. u_sort_key r = k) out = filter (\<lambda>r. u_sort_key r = k) pre)"
    by blast
next
  assume "run_aim_formatter parse1 today fr = Inr out'"
  then obtain w d t ages pre where f: "find_col (cols fr) ''work'' = Some w"
      "find_col (cols fr) ''desc'' = Some d" "find_col (cols fr) ''date'' = Some t"
    and len: "length ages = length (rows fr)"
    and pre: "pre = map (\<lambda>(r, a). \<lparr> f_age = a,
                              f_floor = fst (extract_floor_room (r ''Description'')),
                              f_room = snd (extract_floor_room (r ''Description'')),
                              f_status = ''Pending'',
                              f_source = r \<rparr>)
                  (zip (rows (rename (Map.empty(w \<mapsto> ''Work Order'', d \<mapsto> ''Description'',
                                               t \<mapsto> ''Date Created'')) fr)) ages)"
    and out: "out' = sort_values fmt_sort_key pre"
    by (auto elim!: run_aim_formatter_Inr)
  let ?fr = "rename (Map.empty(w \<mapsto> ''Work Order'', d \<mapsto> ''Description'', t \<mapsto> ''Date Created'')) fr"
  have l2: "length (rows ?fr) = length ages" using len by (simp add: rename_def Let_def)
  have "map f_source pre = map fst (zip (rows ?fr) ages)"
    unfolding pre by (simp add: case_prod_beta)
  also have "\<dots> = rows ?fr" using l2 by simp
  finally have src: "map f_source pre = rows ?fr" .
  have "length out' = length pre" "set out' = set pre" "sorted (map fmt_sort_key out')"
    by (simp_all add: out sort_values_def)
  moreover have "\<forall>k. filter (\<lambda>r. fmt_sort_key r = k) out' = filter (\<lambda>r. fmt_sort_key r = k) pre"
    by (simp add: out sort_values_def sort_key_stable)
  ultimately show "\<exists>pre w d t. find_col (cols fr) ''work'' = Some w \<and> find_col (cols fr) ''desc'' = Some d
             \<and> find_col (cols fr) ''date'' = Some t
             \<and> map f_source pre = rows (rename (Map.empty(w \<mapsto> ''Work Order'',
                                     d \<mapsto> ''Description'', t \<mapsto> ''Date Created'')) fr)
             \<and> length out' = length pre \<and> set out' = set pre \<and> sorted (map fmt_sort_key out')
             \<and> (\<forall>k. filter (\<lambda>r. fmt_sort_key r = k) out' = filter (\<lambda>r. fmt_sort_key r = k) pre)"
    using src f by blast
qed

text \<open>
  In the example the work orders 1 and 2 have the same key and work order 3 a smaller
  one: the output is 3, 1, 2.
\<close>

theorem sort_is_stable_witness:
  "(\<exists>out. prepare_dataframe (\<lambda>column. example_parse) 19730 example_frame = Inr out
        \<and> map (\<lambda>r. source r ''Work Order'') out = [Some ''3'', Some ''1'', Some ''2'']
        \<and> (\<exists>pre. map source pre = rows example_frame
              \<and> (\<forall>k. filter (\<lambda>r. u_sort_key r = k) out = filter (\<lambda>r. u_sort_key r = k) pre)))
   \<and> (\<exists>out. run_aim_formatter example_parse 19730 example_frame = Inr out
        \<and> map (\<lambda>r. f_source r ''Work Order'') out = [Some ''3'', Some ''1'', Some ''2'']
        \<and> (\<exists>pre. length pre = length out
              \<and> (\<forall>k. filter (\<lambda>r. fmt_sort_key r = k) out = filter (\<lambda>r. fmt_sort_key r = k) pre)))"
proof -
  have "(case prepare_dataframe (\<lambda>column. example_parse) 19730 example_frame of
           Inl e \<Rightarrow> None | Inr v \<Rightarrow> Some (map (\<lambda>r. source r ''Work Order'') v))
        = Some [Some ''3'', Some ''1'', Some ''2'']"
    by code_simp
  then obtain out where a: "prepare_dataframe (\<lambda>column. example_parse) 19730 example_frame = Inr out"
      "map (\<lambda>r. source r ''Work Order'') out = [Some ''3'', Some ''1'', Some ''2'']"
    by (rule sum_case_InrE)
  have "(case run_aim_formatter example_parse 19730 example_frame of
           Inl e \<Rightarrow> None | Inr v \<Rightarrow> Some (map (\<lambda>r. f_source r ''Work Order'') v))
        = Some [Some ''3'', Some ''1'', Some ''2'']"
    by code_simp
  then obtain out' where b: "run_aim_formatter example_parse 19730 example_frame = Inr out'"
      "map (\<lambda>r. f_source r ''Work Order'') out' = [Some ''3'', Some ''1'', Some ''2'']"
    by (rule sum_case_InrE)
  from sort_is_stable[of "\<lambda>column. example_parse" 19730 example_frame out example_parse out'] a(1) b(1)
  have c: "\<exists>pre. map source pre = rows example_frame
              \<and> (\<forall>k. filter (\<lambda>r. u_sort_key r = k) out = filter (\<lambda>r. u_sort_key r = k) pre)"
   and d: "\<exists>pre. length pre = length out'
              \<and> (\<forall>k. filter (\<lambda>r. fmt_sort_key r = k) out' = filter (\<lambda>r. fmt_sort_key r = k) pre)"
    by metis+
  show ?thesis
  proof (intro conjI)
    show "\<exists>out. prepare_dataframe (\<lambda>column. example_parse) 19730 example_frame = Inr out
        \<and> map (\<lambda>r. source r ''Work Order'') out = [Some ''3'', Some ''1'', Some ''2'']
        \<and> (\<exists>pre. map source pre = rows example_frame
              \<and> (\<forall>k. filter (\<lambda>r. u_sort_key r = k) out = filter (\<lambda>r. u_sort_key r = k) pre))"
      by (rule exI[of _ out]) (use a c in simp)
    show "\<exists>out. run_aim_formatter example_parse 19730 example_frame = Inr out
        \<and> map (\<lambda>r. f_source r ''Work Order'') out = [Some ''3'', Some ''1'', Some ''2'']
        \<and> (\<exists>pre. length pre = length out
              \<and> (\<forall>k. filter (\<lambda>r. fmt_sort_key r = k) out = filter (\<lambda>r. fmt_sort_key r = k) pre))"
      by (rule exI[of _ out']) (use b d in simp)
  qed
qed

subsection \<open>A date that is missing or no date\<close>

text \<open>
  In \<^verbatim>\<open>prepare_dataframe\<close> the dates are parsed with \<^verbatim>\<open>errors="coerce"\<close>: every
  output row has the age computed from its own date cell, a row whose date cell is empty
  or is not read as a date has the age None, and the call succeeds whatever the date
  cells hold.
\<close>

lemma u_row_age:
  assumes "prepare_dataframe parse today fr = Inr out" and "r \<in> set out"
  shows "age r = (case u_date_column (cols fr) of
                    None \<Rightarrow> None
                  | Some c \<Rightarrow> u_business_days
                      (case source r c of None \<Rightarrow> None
                       | Some s \<Rightarrow> parse (map (\<lambda>r. r c) (rows fr)) s) today)"
proof -
  from assms(1) obtain dc where
    out: "out = sort_values u_sort_key (map (u_enrich fr dc) (zip (rows fr) (u_ages parse today fr)))"
    by (rule prepare_dataframe_Inr)
  with assms(2) obtain r0 a where r: "r = u_enrich fr dc (r0, a)"
    and z: "(r0, a) \<in> set (zip (rows fr) (u_ages parse today fr))"
    by (auto simp: sort_values_def)
  have sr: "r0 = source r" and ar: "a = age r" by (simp_all add: r u_enrich_def)
  from z have "a = (case u_date_column (cols fr) of
                    None \<Rightarrow> None
                  | Some c \<Rightarrow> u_business_days
                      (case r0 c of None \<Rightarrow> None
                       | Some s \<Rightarrow> parse (map (\<lambda>r. r c) (rows fr)) s) today)"
    unfolding u_ages_map by (rule zip_map_same)
  then show ?thesis unfolding sr ar .
qed

lemma u_age_unavailable:
  assumes "prepare_dataframe parse today fr = Inr out" and "r \<in> set out"
      and "u_date_column (cols fr) = Some c"
      and "source r c = None \<or> (\<exists>s. source r c = Some s \<and> parse (map (\<lambda>r. r c) (rows fr)) s = None)"
  shows "age r = None"
  using assms(3,4) unfolding u_row_age[OF assms(1,2)] by (auto simp: u_business_days_def)

lemma u_bad_date_not_fatal:
  "within_int_limit fr \<Longrightarrow>
   (\<exists>out. prepare_dataframe parse today fr = Inr out \<and> length out = length (rows fr))
     \<longleftrightarrow> (u_find_column (cols fr) [''description'', ''desc''] \<noteq> None \<and> rows fr \<noteq> [])"
  by (auto simp: prepare_dataframe_def sort_values_def u_ages_length split: option.splits)

lemma u_example_bad_date:
  "(case prepare_dataframe (\<lambda>column. example_parse) 19730 example_frame_bad_date of
      Inl e \<Rightarrow> [] | Inr out \<Rightarrow> map (\<lambda>r. (source r ''Work Order'', age r)) out)
   = [(Some ''3'', Some 3), (Some ''1'', Some 5), (Some ''2'', None), (Some ''4'', None)]"
  by code_simp

text \<open>
  Claim C8 does not hold for \<^verbatim>\<open>run_aim_formatter\<close>: it parses each date cell with
  \<^verbatim>\<open>pd.to_datetime(d)\<close> before it calls \<^verbatim>\<open>calculate_business_days\<close>, outside the
  \<^verbatim>\<open>try\<close> of that function, so one row whose date is the text "TBD" ends the whole
  batch with the parser's error.
\<close>

theorem formatter_unparseable_date_aborts:
  "run_aim_formatter example_parse 19730 example_frame_bad_date = Inl DateParse"
proof -
  have "(case run_aim_formatter example_parse 19730 example_frame_bad_date of
           Inl e \<Rightarrow> Some e | Inr v \<Rightarrow> None) = Some DateParse"
    by code_simp
  then show ?thesis by (rule sum_case_eqI)
qed

text \<open>
  An input with an Edit Date column before its Date Created column does not pass
  \<^verbatim>\<open>run_aim_formatter\<close> either: the first is renamed to Date Created, and the name
  then stands for two columns.
\<close>

lemma formatter_two_date_columns:
  "run_aim_formatter example_parse 19730 example_frame_two_dates = Inl AmbiguousColumn"
proof -
  have "(case run_aim_formatter example_parse 19730 example_frame_two_dates of
           Inl e \<Rightarrow> Some e | Inr v \<Rightarrow> None) = Some AmbiguousColumn"
    by code_simp
  then show ?thesis by (rule sum_case_eqI)
qed

subsection \<open>When a batch is refused\<close>






text \<open>
  On a frame without rows \<^verbatim>\<open>prepare_dataframe\<close> fails although the description
  column is there: unpacking the zipped (floor, room) pairs of no rows into Floor and
  Room raises.
\<close>

lemma u_empty_batch:
  "u_find_column cs [''description'', ''desc''] = Some dc \<Longrightarrow>
   prepare_dataframe parse today \<lparr> cols = cs, rows = [] \<rparr> = Inl Unpack"
  by (simp add: prepare_dataframe_def)

end
